theory Spec2Isabelle
  imports Complex_Main "HOL-Library.Word"
begin

unbundle bit_operations_syntax

section \<open>JavaScript values used by the transform subsystem\<close>

text \<open>
  Strings are lists of characters with code units below 256 (\<open>charCodeAt\<close> is \<open>of_char\<close>).
  Numbers that the code only stores, tests for truthiness and prints (strength, steps, ...)
  are exact rationals; no rounding of doubles is modelled. Counters and loop bounds are
  natural numbers, clock readings (\<open>Date.now()\<close>) are integers in milliseconds.
\<close>

definition digit_char :: "nat \<Rightarrow> char" where
  "digit_char d = ''0123456789abcdefghijklmnopqrstuvwxyz'' ! (d mod 36)"

text \<open>\<open>Number.prototype.toString(radix)\<close> on a non-negative integer.\<close>

function toStringRadix :: "nat \<Rightarrow> nat \<Rightarrow> string" where
  "toStringRadix b n =
     (if b < 2 \<or> n < b then [digit_char n]
      else toStringRadix b (n div b) @ [digit_char (n mod b)])"
  by pat_completeness auto
termination
  by (relation "measure (\<lambda>(b, n). n)") auto

declare toStringRadix.simps [simp del]

fun fracDigits :: "nat \<Rightarrow> rat \<Rightarrow> string" where
  "fracDigits 0 r = []"
| "fracDigits (Suc k) r =
     (if r = 0 then []
      else (let d = nat \<lfloor>r * 10\<rfloor> in digit_char d # fracDigits k (r * 10 - of_nat d)))"

text \<open>Decimal rendering of a number, as \<open>String(x)\<close> and \<open>JSON.stringify(x)\<close> give it
  for integers and short decimal fractions.\<close>

definition Number_toString :: "rat \<Rightarrow> string" where
  "Number_toString x =
     (let a = \<bar>x\<bar>; ip = nat \<lfloor>a\<rfloor>; fp = a - of_nat ip
      in (if x < 0 then ''-'' else []) @ toStringRadix 10 ip
         @ (if fp = 0 then [] else ''.'' @ fracDigits 17 fp))"

definition startsWith :: "string \<Rightarrow> string \<Rightarrow> bool" where
  "startsWith s p = (take (length p) s = p)"

fun includesStr :: "string \<Rightarrow> string \<Rightarrow> bool" where
  "includesStr [] p = (p = [])"
| "includesStr (c # cs) p = (startsWith (c # cs) p \<or> includesStr cs p)"

definition dquote :: char where
  "dquote = CHR 0x22"

definition backslash :: char where
  "backslash = CHR 0x5C"

text \<open>\<open>JSON.stringify\<close> of a string: quotes, with the two-character escapes and
  \<open>\u00XX\<close> for the other control characters.\<close>

definition json_escape :: "char \<Rightarrow> string" where
  "json_escape c =
     (if c = dquote then [backslash, dquote]
      else if c = backslash then [backslash, backslash]
      else if c = CHR 0x08 then [backslash, CHR ''b'']
      else if c = CHR 0x0C then [backslash, CHR ''f'']
      else if c = CHR 0x0A then [backslash, CHR ''n'']
      else if c = CHR 0x0D then [backslash, CHR ''r'']
      else if c = CHR 0x09 then [backslash, CHR ''t'']
      else if (of_char c :: nat) < 32
        then [backslash, CHR ''u'', CHR ''0'', CHR ''0'',
              digit_char (of_char c div 16), digit_char (of_char c mod 16)]
      else [c])"

definition json_string :: "string \<Rightarrow> string" where
  "json_string s = dquote # concat (map json_escape s) @ [dquote]"

section \<open>Errors\<close>

text \<open>
  The \<open>type\<close> tags of \<open>APIErrorType\<close> and of the game's \<open>ErrorType\<close> (strings at run time).
\<close>

datatype ErrorTag =
    AUTH_ERROR | RATE_LIMIT_ERROR | INVALID_REQUEST | SERVER_ERROR
  | NETWORK_ERROR | TIMEOUT_ERROR | UNKNOWN_ERROR
  | API_ERROR | VALIDATION_ERROR | RENDER_ERROR | UPLOAD_ERROR

text \<open>
  A thrown value is either a plain object literal, as \<open>createAPIError\<close> and \<open>createError\<close>
  build it, or a native \<open>Error\<close> instance (is it a \<open>TypeError\<close>, its \<open>name\<close>, its
  \<open>message\<close>), which carries no \<open>type\<close> property. A plain error object has its
  \<open>type\<close>, its \<open>message\<close>, the thrown value kept in its \<open>details\<close> (under \<open>error\<close> or
  \<open>originalError\<close> in an API error; a game error has it as its \<open>details\<close>), the
  \<open>requestId\<close> in its \<open>details\<close>, when there is one, and its \<open>timestamp\<close>, the value of
  \<open>Date.now()\<close> when it was built. The other diagnostic entries of \<open>details\<close> (status,
  response text, response, attempt number, timeout, transform type) and the constant
  \<open>recoverable\<close> flag of a game error are left out.
\<close>

datatype thrown =
    PlainError ErrorTag string "thrown option" "string option" int
  | NativeError bool string string

fun instanceofError :: "thrown \<Rightarrow> bool" where
  "instanceofError (PlainError t m d r ts) = False"
| "instanceofError (NativeError te n m) = True"

fun instanceofTypeError :: "thrown \<Rightarrow> bool" where
  "instanceofTypeError (PlainError t m d r ts) = False"
| "instanceofTypeError (NativeError te n m) = te"

fun typeOf :: "thrown \<Rightarrow> ErrorTag option" where
  "typeOf (PlainError t m d r ts) = Some t"
| "typeOf (NativeError te n m) = None"

fun messageOf :: "thrown \<Rightarrow> string" where
  "messageOf (PlainError t m d r ts) = m"
| "messageOf (NativeError te n m) = m"

fun nameOf :: "thrown \<Rightarrow> string option" where
  "nameOf (PlainError t m d r ts) = None"
| "nameOf (NativeError te n m) = Some n"

definition createAPIError ::
  "ErrorTag \<Rightarrow> string \<Rightarrow> thrown option \<Rightarrow> string option \<Rightarrow> int \<Rightarrow> thrown" where
  "createAPIError t m detailsError detailsRequestId now =
     PlainError t m detailsError detailsRequestId now"

section \<open>APIService: configuration, options, requests\<close>

datatype TransformType = light | heavy

fun transformTypeName :: "TransformType \<Rightarrow> string" where
  "transformTypeName light = ''light''"
| "transformTypeName heavy = ''heavy''"

record JimengConfig =
  endpoint :: string
  apiKey :: string
  defaultModel :: string
  transformPrompts :: "TransformType \<Rightarrow> string"
  defaultStrength :: "TransformType \<Rightarrow> rat"
  defaultSteps :: rat
  defaultGuidanceScale :: rat
  defaultWidth :: rat
  defaultHeight :: rat
  timeout :: rat
  retryCount :: nat

text \<open>
  The counts \<open>retryCount\<close> and \<open>maxCacheSize\<close> (JavaScript numbers) are taken to be
  non-negative integers.
\<close>

record APIServiceOptions =
  enableRetry :: bool
  enableCache :: bool
  maxCacheSize :: nat

text \<open>
  A \<open>TransformOptions\<close> object: its defined properties in insertion order (the order
  \<open>JSON.stringify\<close> prints them in), each kind at most once.
\<close>

datatype OptionField =
    Strength rat | Steps rat | GuidanceScale rat | Width rat | Height rat | Seed rat
  | CustomPrompt string

type_synonym TransformOptions = "OptionField list"

fun fieldName :: "OptionField \<Rightarrow> string" where
  "fieldName (Strength v) = ''strength''"
| "fieldName (Steps v) = ''steps''"
| "fieldName (GuidanceScale v) = ''guidance_scale''"
| "fieldName (Width v) = ''width''"
| "fieldName (Height v) = ''height''"
| "fieldName (Seed v) = ''seed''"
| "fieldName (CustomPrompt s) = ''customPrompt''"

fun fieldJSON :: "OptionField \<Rightarrow> string" where
  "fieldJSON (CustomPrompt s) = json_string s"
| "fieldJSON (Strength v) = Number_toString v"
| "fieldJSON (Steps v) = Number_toString v"
| "fieldJSON (GuidanceScale v) = Number_toString v"
| "fieldJSON (Width v) = Number_toString v"
| "fieldJSON (Height v) = Number_toString v"
| "fieldJSON (Seed v) = Number_toString v"

fun getStrength :: "TransformOptions \<Rightarrow> rat option" where
  "getStrength [] = None"
| "getStrength (Strength v # fs) = Some v"
| "getStrength (f # fs) = getStrength fs"

fun getSteps :: "TransformOptions \<Rightarrow> rat option" where
  "getSteps [] = None"
| "getSteps (Steps v # fs) = Some v"
| "getSteps (f # fs) = getSteps fs"

fun getGuidanceScale :: "TransformOptions \<Rightarrow> rat option" where
  "getGuidanceScale [] = None"
| "getGuidanceScale (GuidanceScale v # fs) = Some v"
| "getGuidanceScale (f # fs) = getGuidanceScale fs"

fun getWidth :: "TransformOptions \<Rightarrow> rat option" where
  "getWidth [] = None"
| "getWidth (Width v # fs) = Some v"
| "getWidth (f # fs) = getWidth fs"

fun getHeight :: "TransformOptions \<Rightarrow> rat option" where
  "getHeight [] = None"
| "getHeight (Height v # fs) = Some v"
| "getHeight (f # fs) = getHeight fs"

fun getSeed :: "TransformOptions \<Rightarrow> rat option" where
  "getSeed [] = None"
| "getSeed (Seed v # fs) = Some v"
| "getSeed (f # fs) = getSeed fs"

fun getCustomPrompt :: "TransformOptions \<Rightarrow> string option" where
  "getCustomPrompt [] = None"
| "getCustomPrompt (CustomPrompt s # fs) = Some s"
| "getCustomPrompt (f # fs) = getCustomPrompt fs"

text \<open>\<open>x || d\<close> on an optional number (\<open>undefined\<close> and \<open>0\<close> are falsy) and on an
  optional string (\<open>undefined\<close> and the empty string are falsy).\<close>

fun numOr :: "rat option \<Rightarrow> rat \<Rightarrow> rat" where
  "numOr None d = d"
| "numOr (Some v) d = (if v = 0 then d else v)"

fun strOr :: "string option \<Rightarrow> string \<Rightarrow> string" where
  "strOr None d = d"
| "strOr (Some s) d = (if s = [] then d else s)"

record JimengImageTransformRequest =
  req_model :: string
  req_prompt :: string
  req_image :: string
  req_strength :: rat
  req_steps :: rat
  req_guidance_scale :: rat
  req_width :: rat
  req_height :: rat
  req_seed :: "rat option"

definition isLower :: "char \<Rightarrow> bool" where
  "isLower c = (97 \<le> (of_char c :: nat) \<and> (of_char c :: nat) \<le> 122)"

text \<open>\<open>base64.replace(/^data:image\/[a-z]+;base64,/, '')\<close>\<close>

definition cleanBase64 :: "string \<Rightarrow> string" where
  "cleanBase64 base64 =
     (if startsWith base64 ''data:image/''
      then (let rest = drop 11 base64;
                letters = takeWhile isLower rest;
                after = dropWhile isLower rest
            in if letters \<noteq> [] \<and> startsWith after '';base64,'' then drop 8 after else base64)
      else base64)"

definition addBase64Prefix :: "string \<Rightarrow> string" where
  "addBase64Prefix base64 =
     (if startsWith base64 ''data:'' then base64 else ''data:image/jpeg;base64,'' @ base64)"

text \<open>The request object built at the start of \<open>performTransformation\<close>.\<close>

definition buildRequest ::
  "JimengConfig \<Rightarrow> string \<Rightarrow> TransformType \<Rightarrow> TransformOptions \<Rightarrow> JimengImageTransformRequest" where
  "buildRequest jimengConfig imageBase64 transformType options =
     \<lparr> req_model = defaultModel jimengConfig,
       req_prompt = strOr (getCustomPrompt options) (transformPrompts jimengConfig transformType),
       req_image = cleanBase64 imageBase64,
       req_strength = numOr (getStrength options) (defaultStrength jimengConfig transformType),
       req_steps = numOr (getSteps options) (defaultSteps jimengConfig),
       req_guidance_scale = numOr (getGuidanceScale options) (defaultGuidanceScale jimengConfig),
       req_width = numOr (getWidth options) (defaultWidth jimengConfig),
       req_height = numOr (getHeight options) (defaultHeight jimengConfig),
       req_seed = getSeed options \<rparr>"

section \<open>APIService: request keys\<close>

definition hashStep :: "32 word \<Rightarrow> char \<Rightarrow> 32 word" where
  "hashStep hash c = (push_bit 5 hash - hash) + of_nat (of_char c)"

definition simpleHash :: "string \<Rightarrow> string" where
  "simpleHash str = toStringRadix 36 (nat \<bar>sint (foldl hashStep 0 str)\<bar>)"

text \<open>\<open>JSON.stringify({ transformType, ...options })\<close>\<close>

definition optionsJSON :: "TransformType \<Rightarrow> TransformOptions \<Rightarrow> string" where
  "optionsJSON transformType options =
     ''{'' @ json_string ''transformType'' @ '':'' @ json_string (transformTypeName transformType)
       @ concat (map (\<lambda>f. '','' @ json_string (fieldName f) @ '':'' @ fieldJSON f) options)
       @ ''}''"

definition generateRequestKey :: "string \<Rightarrow> TransformType \<Rightarrow> TransformOptions \<Rightarrow> string" where
  "generateRequestKey imageBase64 transformType options =
     simpleHash imageBase64 @ ''_'' @ simpleHash (optionsJSON transformType options)"

section \<open>APIService: retry policy\<close>

fun getErrorTypeFromStatus :: "int \<Rightarrow> ErrorTag" where
  "getErrorTypeFromStatus status =
     (if status = 401 \<or> status = 403 then AUTH_ERROR
      else if status = 429 then RATE_LIMIT_ERROR
      else if status \<ge> 400 \<and> status < 500 then INVALID_REQUEST
      else if status \<ge> 500 then SERVER_ERROR
      else UNKNOWN_ERROR)"

definition isRetryableError :: "thrown \<Rightarrow> bool" where
  "isRetryableError error =
     (case typeOf error of
        None \<Rightarrow> False
      | Some t \<Rightarrow> t \<in> set [NETWORK_ERROR, TIMEOUT_ERROR, SERVER_ERROR])"

text \<open>\<open>Math.pow(2, k)\<close> for an integer \<open>k\<close>.\<close>

definition Math_pow2 :: "int \<Rightarrow> rat" where
  "Math_pow2 k = (if k \<ge> 0 then 2 ^ nat k else 1 / 2 ^ nat (- k))"

definition calculateRetryDelay :: "int \<Rightarrow> rat" where
  "calculateRetryDelay attempt = min (1000 * Math_pow2 (attempt - 1)) 10000"

section \<open>APIService: result cache\<close>

text \<open>
  A JavaScript \<open>Map\<close> is the list of its entries in insertion order: \<open>set\<close> on a present
  key replaces the value in place, \<open>set\<close> on a new key appends, \<open>keys().next().value\<close> is
  the key of the first entry.
\<close>

definition Map_get :: "('k \<times> 'v) list \<Rightarrow> 'k \<Rightarrow> 'v option" where
  "Map_get m k = map_of m k"

fun Map_set :: "('k \<times> 'v) list \<Rightarrow> 'k \<Rightarrow> 'v \<Rightarrow> ('k \<times> 'v) list" where
  "Map_set [] k v = [(k, v)]"
| "Map_set ((k', v') # m) k v = (if k' = k then (k, v) # m else (k', v') # Map_set m k v)"

definition Map_delete :: "('k \<times> 'v) list \<Rightarrow> 'k \<Rightarrow> ('k \<times> 'v) list" where
  "Map_delete m k = filter (\<lambda>kv. fst kv \<noteq> k) m"

fun Map_first_key :: "('k \<times> 'v) list \<Rightarrow> 'k option" where
  "Map_first_key [] = None"
| "Map_first_key ((k, v) # m) = Some k"

record CacheEntry =
  ce_key :: string
  ce_result :: string
  ce_timestamp :: int
  ce_expiresAt :: int

text \<open>
  In \<open>activeRequests\<close> a promise is represented by the outcome it settles with: the value of
  the attempt chain that \<open>performTransformation\<close> started (\<open>Inl\<close> a rejection, \<open>Inr\<close> the
  result).
\<close>

record APIService =
  svc_config :: JimengConfig
  svc_options :: APIServiceOptions
  requestCache :: "(string \<times> CacheEntry) list"
  activeRequests :: "(string \<times> (thrown + string)) list"
  requestIdCounter :: nat

definition getCachedResult ::
  "int \<Rightarrow> APIService \<Rightarrow> string \<Rightarrow> TransformType \<Rightarrow> TransformOptions
     \<Rightarrow> string option \<times> APIService" where
  "getCachedResult now svc imageBase64 transformType options =
     (let key = generateRequestKey imageBase64 transformType options
      in case Map_get (requestCache svc) key of
           None \<Rightarrow> (None, svc)
         | Some entry \<Rightarrow>
             if now > ce_expiresAt entry
             then (None, svc\<lparr>requestCache := Map_delete (requestCache svc) key\<rparr>)
             else (Some (ce_result entry), svc))"

definition cacheResult :: "int \<Rightarrow> APIService \<Rightarrow> string \<Rightarrow> string \<Rightarrow> APIService" where
  "cacheResult now svc key result =
     (let cache1 =
            (if length (requestCache svc) \<ge> maxCacheSize (svc_options svc)
             then (case Map_first_key (requestCache svc) of
                     None \<Rightarrow> requestCache svc
                   | Some oldestKey \<Rightarrow>
                       if oldestKey \<noteq> [] then Map_delete (requestCache svc) oldestKey
                       else requestCache svc)
             else requestCache svc);
          entry = \<lparr> ce_key = key, ce_result = result, ce_timestamp = now,
                    ce_expiresAt = now + 24 * 60 * 60 * 1000 \<rparr>
      in svc\<lparr>requestCache := Map_set cache1 key entry\<rparr>)"

definition clearCache :: "APIService \<Rightarrow> APIService" where
  "clearCache svc = svc\<lparr>requestCache := []\<rparr>"

section \<open>APIService: one network exchange\<close>

record jimeng_response =
  rsp_success :: bool
  rsp_message :: "string option"
  rsp_image :: "string option"
  rsp_error :: "string option"

text \<open>
  What \<open>fetch\<close> does for one request: it rejects with a thrown value, or it resolves to a
  response with a status, a status text and a body whose \<open>json()\<close> either throws or yields
  the parsed response (\<open>rsp_image\<close> is \<open>data?.image\<close>). \<open>response.ok\<close> is a status
  from 200 to 299; reading the text of an error response is taken to succeed.
\<close>

datatype fetch_result =
    Rejects thrown
  | Responds int string "thrown + jimeng_response"

text \<open>
  The environment: the outcome and the duration of the \<open>k\<close>-th network exchange. The world:
  how many exchanges were made, the delays slept, the clock, and how many attempt chains
  were started.
\<close>

record env =
  net :: "nat \<Rightarrow> JimengImageTransformRequest \<Rightarrow> fetch_result"
  latency :: "nat \<Rightarrow> nat"

record world =
  netCalls :: nat
  sleeps :: "rat list"
  clock :: int
  executions :: nat

definition sleep :: "rat \<Rightarrow> world \<Rightarrow> world" where
  "sleep ms w = w\<lparr>sleeps := sleeps w @ [ms], clock := clock w + \<lceil>ms\<rceil>\<rparr>"

definition response_ok :: "int \<Rightarrow> bool" where
  "response_ok status = (200 \<le> status \<and> status \<le> 299)"

text \<open>The \<open>catch\<close> block of \<open>makeAPIRequest\<close>.\<close>

definition makeAPIRequest_catch :: "string \<Rightarrow> int \<Rightarrow> thrown \<Rightarrow> thrown" where
  "makeAPIRequest_catch requestId now error =
     (if instanceofError error \<and> nameOf error = Some ''AbortError''
      then createAPIError TIMEOUT_ERROR ''Request timeout'' None (Some requestId) now
      else if instanceofTypeError error \<and> includesStr (messageOf error) ''fetch''
      then createAPIError NETWORK_ERROR ''Network connection failed'' (Some error)
             (Some requestId) now
      else error)"

definition makeAPIRequest ::
  "string \<Rightarrow> int \<Rightarrow> fetch_result \<Rightarrow> thrown + jimeng_response" where
  "makeAPIRequest requestId now r =
     (case r of
        Rejects error \<Rightarrow> Inl (makeAPIRequest_catch requestId now error)
      | Responds status statusText body \<Rightarrow>
          if \<not> response_ok status
          then Inl (makeAPIRequest_catch requestId now
                 (createAPIError (getErrorTypeFromStatus status)
                    (''HTTP '' @ Number_toString (of_int status) @ '': '' @ statusText) None
                    (Some requestId) now))
          else (case body of
                  Inl error \<Rightarrow> Inl (makeAPIRequest_catch requestId now error)
                | Inr result \<Rightarrow> Inr result))"

text \<open>The \<open>try\<close> block of one iteration of the retry loop.\<close>

definition attemptOutcome :: "string \<Rightarrow> int \<Rightarrow> fetch_result \<Rightarrow> thrown + string" where
  "attemptOutcome requestId now r =
     (case makeAPIRequest requestId now r of
        Inl error \<Rightarrow> Inl error
      | Inr response \<Rightarrow>
          (case rsp_image response of
             Some img \<Rightarrow>
               if rsp_success response \<and> img \<noteq> []
               then Inr (addBase64Prefix img)
               else Inl (createAPIError SERVER_ERROR
                      (strOr (rsp_message response)
                         (strOr (rsp_error response) ''Transformation failed'')) None
                      (Some requestId) now)
           | None \<Rightarrow>
               Inl (createAPIError SERVER_ERROR
                      (strOr (rsp_message response)
                         (strOr (rsp_error response) ''Transformation failed'')) None
                      (Some requestId) now)))"

section \<open>APIService: the retry loop\<close>

definition throwLast :: "string \<Rightarrow> int \<Rightarrow> thrown option \<Rightarrow> thrown" where
  "throwLast requestId now lastError =
     (case lastError of
        Some error \<Rightarrow> error
      | None \<Rightarrow>
          createAPIError UNKNOWN_ERROR ''All retry attempts failed'' None (Some requestId)
            now)"

function retryLoop ::
  "env \<Rightarrow> JimengImageTransformRequest \<Rightarrow> string \<Rightarrow> nat \<Rightarrow> nat \<Rightarrow> thrown option \<Rightarrow> world
     \<Rightarrow> (thrown + string) \<times> world" where
  "retryLoop e request requestId maxRetries attempt lastError w =
     (if attempt \<le> maxRetries
      then (let w1 = w\<lparr>netCalls := netCalls w + 1,
                        clock := clock w + int (latency e (netCalls w))\<rparr>
            in case attemptOutcome requestId (clock w1) (net e (netCalls w) request) of
                 Inr result \<Rightarrow> (Inr result, w1)
               | Inl error \<Rightarrow>
                   if attempt = maxRetries \<or> \<not> isRetryableError error
                   then (Inl (throwLast requestId (clock w1) (Some error)), w1)
                   else retryLoop e request requestId maxRetries (attempt + 1) (Some error)
                          (sleep (calculateRetryDelay (int attempt)) w1))
      else (Inl (throwLast requestId (clock w) lastError), w))"
  by pat_completeness auto
termination
  by (relation "measure (\<lambda>(e, request, requestId, maxRetries, attempt, lastError, w).
                  Suc maxRetries - attempt)")
    auto

declare retryLoop.simps [simp del]

definition performTransformation ::
  "env \<Rightarrow> APIService \<Rightarrow> string \<Rightarrow> TransformType \<Rightarrow> TransformOptions \<Rightarrow> string \<Rightarrow> world
     \<Rightarrow> (thrown + string) \<times> world" where
  "performTransformation e svc imageBase64 transformType options requestId w =
     (let jimengConfig = svc_config svc;
          request = buildRequest jimengConfig imageBase64 transformType options;
          maxRetries = (if enableRetry (svc_options svc) then retryCount jimengConfig else 1)
      in retryLoop e request requestId maxRetries 1 None
           (w\<lparr>executions := executions w + 1\<rparr>))"

section \<open>APIService: transformImage\<close>

text \<open>
  A call of \<open>transformImage\<close> runs synchronously up to its first \<open>await\<close>
  (\<open>transformImage_begin\<close>): it either finishes at once (missing key, cache hit) or is
  suspended on a promise, as the owner that started the attempt chain and registered it under
  the request key, or as a joiner of the promise found in \<open>activeRequests\<close>. When the
  promise settles the call continues (\<open>transformImage_resume\<close>). A call that nothing
  interleaves with is the two in sequence (\<open>transformImage\<close>). The exchanges and delays
  of an attempt chain are entered in the world when the chain is started.
\<close>

text \<open>A suspended call keeps its own request id; the owner also keeps the request key.\<close>

datatype pending =
    Owner string string "thrown + string"
  | Joiner string "thrown + string"

text \<open>\<open>`transform_${++this.requestIdCounter}`\<close>, for the incremented counter.\<close>

definition requestIdOf :: "nat \<Rightarrow> string" where
  "requestIdOf counter = ''transform_'' @ Number_toString (of_nat counter)"

text \<open>The outer \<open>catch\<close> block of \<open>transformImage\<close>.\<close>

definition transformImage_catch :: "string \<Rightarrow> int \<Rightarrow> thrown \<Rightarrow> thrown" where
  "transformImage_catch requestId now error =
     (if instanceofError error \<and> typeOf error \<noteq> None then error
      else createAPIError UNKNOWN_ERROR ''Image transformation failed'' (Some error)
             (Some requestId) now)"

definition transformImage_begin ::
  "env \<Rightarrow> APIService \<Rightarrow> world \<Rightarrow> string \<Rightarrow> TransformType \<Rightarrow> TransformOptions
     \<Rightarrow> ((thrown + string) + pending) \<times> APIService \<times> world" where
  "transformImage_begin e svc w imageBase64 transformType options =
     (if apiKey (svc_config svc) = []
      then (Inl (Inl (createAPIError AUTH_ERROR ''API key not configured'' None None
                        (clock w))), svc, w)
      else
        (let svc1 = svc\<lparr>requestIdCounter := requestIdCounter svc + 1\<rparr>;
             requestId = requestIdOf (requestIdCounter svc1);
             (cachedResult, svc2) =
               (if enableCache (svc_options svc1)
                then getCachedResult (clock w) svc1 imageBase64 transformType options
                else (None, svc1))
         in if cachedResult \<noteq> None \<and> cachedResult \<noteq> Some []
            then (Inl (Inr (the cachedResult)), svc2, w)
            else
              (let requestKey = generateRequestKey imageBase64 transformType options
               in case Map_get (activeRequests svc2) requestKey of
                    Some promise \<Rightarrow> (Inr (Joiner requestId promise), svc2, w)
                  | None \<Rightarrow>
                      (let (promise, w1) =
                             performTransformation e svc2 imageBase64 transformType options
                               requestId w
                       in (Inr (Owner requestId requestKey promise),
                           svc2\<lparr>activeRequests :=
                                  Map_set (activeRequests svc2) requestKey promise\<rparr>,
                           w1)))))"

definition transformImage_resume ::
  "APIService \<Rightarrow> int \<Rightarrow> pending \<Rightarrow> (thrown + string) \<times> APIService" where
  "transformImage_resume svc now p =
     (case p of
        Joiner requestId promise \<Rightarrow>
          (case promise of
             Inr result \<Rightarrow> (Inr result, svc)
           | Inl error \<Rightarrow> (Inl (transformImage_catch requestId now error), svc))
      | Owner requestId requestKey promise \<Rightarrow>
          (case promise of
             Inr result \<Rightarrow>
               (let svc1 = (if enableCache (svc_options svc)
                            then cacheResult now svc requestKey result else svc)
                in (Inr result,
                    svc1\<lparr>activeRequests := Map_delete (activeRequests svc1) requestKey\<rparr>))
           | Inl error \<Rightarrow>
               (Inl (transformImage_catch requestId now error),
                svc\<lparr>activeRequests := Map_delete (activeRequests svc) requestKey\<rparr>)))"

definition transformImage ::
  "env \<Rightarrow> APIService \<Rightarrow> world \<Rightarrow> string \<Rightarrow> TransformType \<Rightarrow> TransformOptions
     \<Rightarrow> (thrown + string) \<times> APIService \<times> world" where
  "transformImage e svc w imageBase64 transformType options =
     (case transformImage_begin e svc w imageBase64 transformType options of
        (Inl outcome, svc1, w1) \<Rightarrow> (outcome, svc1, w1)
      | (Inr p, svc1, w1) \<Rightarrow>
          (let (outcome, svc2) = transformImage_resume svc1 (clock w1) p
           in (outcome, svc2, w1)))"

section \<open>APIService: batchTransformImages\<close>

record batch_item =
  item_data :: string
  item_type :: TransformType
  item_options :: "TransformOptions option"

text \<open>
  The loop over \<open>images\<close>, from index \<open>i\<close> on. The optional progress callback is given
  by what a call of it does: it returns (\<open>None\<close>) or throws a value. It is called outside
  the \<open>try\<close>/\<open>catch\<close> of the element, so what it throws ends the batch and is raised to
  the caller. Its calls are recorded as \<open>(completed, total)\<close>.
\<close>

type_synonym progressCallback = "nat \<Rightarrow> nat \<Rightarrow> thrown option"

fun batchLoop ::
  "env \<Rightarrow> progressCallback option \<Rightarrow> nat \<Rightarrow> batch_item list \<Rightarrow> nat \<Rightarrow> string list
     \<Rightarrow> (nat \<times> nat) list \<Rightarrow> APIService \<Rightarrow> world
     \<Rightarrow> (thrown + string list) \<times> (nat \<times> nat) list \<times> APIService \<times> world" where
  "batchLoop e onProgress n [] i results calls svc w = (Inr results, calls, svc, w)"
| "batchLoop e onProgress n (item # rest) i results calls svc w =
     (case transformImage e svc w (item_data item) (item_type item)
             (case item_options item of None \<Rightarrow> [] | Some options \<Rightarrow> options) of
        (outcome, svc1, w1) \<Rightarrow>
          (let results1 = (case outcome of
                             Inr result \<Rightarrow> results @ [result]
                           | Inl error \<Rightarrow> results @ [[]])
           in case onProgress of
                None \<Rightarrow> batchLoop e onProgress n rest (i + 1) results1 calls svc1 w1
              | Some callback \<Rightarrow>
                  (case callback (i + 1) n of
                     Some raised \<Rightarrow> (Inl raised, calls @ [(i + 1, n)], svc1, w1)
                   | None \<Rightarrow>
                       batchLoop e onProgress n rest (i + 1) results1
                         (calls @ [(i + 1, n)]) svc1 w1)))"

definition batchTransformImages ::
  "env \<Rightarrow> progressCallback option \<Rightarrow> batch_item list \<Rightarrow> APIService \<Rightarrow> world
     \<Rightarrow> (thrown + string list) \<times> (nat \<times> nat) list \<times> APIService \<times> world" where
  "batchTransformImages e onProgress images svc w =
     batchLoop e onProgress (length images) images 0 [] [] svc w"

section \<open>Test fixtures and drivers\<close>

text \<open>The configuration used by the service's unit tests, and a freshly constructed service.\<close>

definition mockAPIConfig :: JimengConfig where
  "mockAPIConfig =
     \<lparr> endpoint = ''https://api.jimengai.com/image2image'',
       apiKey = ''test-api-key'',
       defaultModel = ''test-model'',
       transformPrompts =
         (\<lambda>t. case t of light \<Rightarrow> ''slightly damaged'' | heavy \<Rightarrow> ''heavily damaged''),
       defaultStrength = (\<lambda>t. case t of light \<Rightarrow> 3 / 10 | heavy \<Rightarrow> 7 / 10),
       defaultSteps = 30,
       defaultGuidanceScale = 10,
       defaultWidth = 512,
       defaultHeight = 512,
       timeout = 30000,
       retryCount = 3 \<rparr>"

definition newAPIService :: "JimengConfig \<Rightarrow> bool \<Rightarrow> bool \<Rightarrow> nat \<Rightarrow> APIService" where
  "newAPIService cfg retry cache cap =
     \<lparr> svc_config = cfg,
       svc_options = \<lparr> enableRetry = retry, enableCache = cache, maxCacheSize = cap \<rparr>,
       requestCache = [],
       activeRequests = [],
       requestIdCounter = 0 \<rparr>"

definition newWorld :: world where
  "newWorld = \<lparr> netCalls = 0, sleeps = [], clock = 0, executions = 0 \<rparr>"

text \<open>A server that answers every request with the same HTTP status and no image.\<close>

definition alwaysStatus :: "int \<Rightarrow> string \<Rightarrow> env" where
  "alwaysStatus status statusText =
     \<lparr> net = (\<lambda>k request. Responds status statusText
                 (Inr \<lparr> rsp_success = False, rsp_message = None, rsp_image = None,
                        rsp_error = None \<rparr>)),
       latency = (\<lambda>k. 0) \<rparr>"


text \<open>
  The operations on the result cache, as \<open>transformImage\<close> and \<open>clearCache\<close> invoke them:
  a lookup, an insertion under the key of a request, a clear.
\<close>

datatype cache_op =
    CacheGet int string TransformType TransformOptions
  | CachePut int string TransformType TransformOptions string
  | CacheClear

fun applyCacheOp :: "APIService \<Rightarrow> cache_op \<Rightarrow> APIService" where
  "applyCacheOp svc (CacheGet now imageBase64 transformType options) =
     snd (getCachedResult now svc imageBase64 transformType options)"
| "applyCacheOp svc (CachePut now imageBase64 transformType options result) =
     cacheResult now svc (generateRequestKey imageBase64 transformType options) result"
| "applyCacheOp svc CacheClear = clearCache svc"

text \<open>The entry that \<open>cacheResult\<close> stores at time \<open>now\<close>.\<close>

definition newEntry :: "int \<Rightarrow> string \<Rightarrow> string \<Rightarrow> CacheEntry" where
  "newEntry now key result =
     \<lparr> ce_key = key, ce_result = result, ce_timestamp = now,
       ce_expiresAt = now + 24 * 60 * 60 * 1000 \<rparr>"

definition cacheInv :: "APIService \<Rightarrow> bool" where
  "cacheInv svc =
     (length (requestCache svc) \<le> maxCacheSize (svc_options svc)
      \<and> distinct (map fst (requestCache svc))
      \<and> (\<forall>kv \<in> set (requestCache svc).
            fst kv \<noteq> [] \<and> ce_timestamp (snd kv) < ce_expiresAt (snd kv)))"

text \<open>
  Per-element outcomes of a batch: element \<open>i\<close> is transformed in the state that the
  elements before it left.
\<close>

fun elementOutcomes ::
  "env \<Rightarrow> batch_item list \<Rightarrow> APIService \<Rightarrow> world \<Rightarrow> (thrown + string) list" where
  "elementOutcomes e [] svc w = []"
| "elementOutcomes e (item # rest) svc w =
     (case transformImage e svc w (item_data item) (item_type item)
             (case item_options item of None \<Rightarrow> [] | Some options \<Rightarrow> options) of
        (outcome, svc1, w1) \<Rightarrow> outcome # elementOutcomes e rest svc1 w1)"

fun resultOrEmpty :: "thrown + string \<Rightarrow> string" where
  "resultOrEmpty (Inr result) = result"
| "resultOrEmpty (Inl error) = []"

text \<open>Progress callbacks: one that returns, and one that throws the given value.\<close>

definition quietProgress :: progressCallback where
  "quietProgress completed n = None"

definition throwingProgress :: "thrown \<Rightarrow> progressCallback" where
  "throwingProgress raised completed n = Some raised"

text \<open>
  The progress callback, when there is one, returns from each of the calls that a batch of
  \<open>n\<close> images makes of it.
\<close>

definition progressReturns :: "progressCallback option \<Rightarrow> nat \<Rightarrow> bool" where
  "progressReturns onProgress n =
     (case onProgress of
        None \<Rightarrow> True
      | Some callback \<Rightarrow> list_all (\<lambda>i. callback (i + 1) n = None) [0..<n])"

text \<open>A server that answers every request with the same image.\<close>

definition alwaysSucceeds :: "string \<Rightarrow> env" where
  "alwaysSucceeds img =
     \<lparr> net = (\<lambda>k request. Responds 200 ''OK''
                 (Inr \<lparr> rsp_success = True, rsp_message = Some ''Success'',
                        rsp_image = Some img, rsp_error = None \<rparr>)),
       latency = (\<lambda>k. 0) \<rparr>"

text \<open>The cache check at the start of \<open>transformImage\<close>, skipped when the cache is disabled.\<close>

definition cacheLookup ::
  "APIService \<Rightarrow> int \<Rightarrow> string \<Rightarrow> TransformType \<Rightarrow> TransformOptions
     \<Rightarrow> string option \<times> APIService" where
  "cacheLookup svc now i t opts =
     (if enableCache (svc_options svc) then getCachedResult now svc i t opts else (None, svc))"

section \<open>ImageTransformManager: state, heap and environment\<close>

text \<open>
  An \<open>HTMLImageElement\<close> is represented by its \<open>src\<close>. The manager's \<open>this.state\<close> is an
  object on a heap and its \<open>transformHistory\<close> field is a reference to an array on the heap,
  so that copies handed out by the getters can be told from the internal objects. Addresses
  below \<open>nextAddr\<close> are allocated.
\<close>

datatype phase = Preparing | Uploading | Processing | Downloading | Completed | Error

record TransformResult =
  tr_success :: bool
  tr_transformedImage :: "string option"
  tr_originalImage :: "string option"
  tr_transformType :: TransformType
  tr_processingTime :: int
  tr_error :: "thrown option"

record TransformState =
  isTransforming :: bool
  currentPhase :: phase
  progress :: rat
  lastTransformTime :: int
  transformHistory :: nat
  failedAttempts :: nat

record TransformManagerOptions =
  phase1Threshold :: nat
  phase2Threshold :: nat
  enableProgressiveTransform :: bool
  maxTransformAttempts :: nat

record manager =
  mgr_options :: TransformManagerOptions
  stateRef :: nat
  abortController :: "bool option"
  states :: "nat \<Rightarrow> TransformState"
  arrays :: "nat \<Rightarrow> TransformResult list"
  nextAddr :: nat
  apiService :: APIService
  mgr_world :: world
  awaits :: nat

text \<open>
  The manager's environment: the network, the image preparation of the \<open>ImageManager\<close>
  (a base64 string or a thrown value), whether an image with a given \<open>src\<close> loads, and the
  suspension points (numbered in the order they are passed) during which the client calls
  \<open>cancelTransform\<close>.
\<close>

record oenv =
  api :: env
  prepareImage :: "string \<Rightarrow> thrown + string"
  imageLoads :: "string \<Rightarrow> bool"
  cancelAt :: "nat \<Rightarrow> bool"

definition newManager :: "TransformManagerOptions \<Rightarrow> APIService \<Rightarrow> world \<Rightarrow> manager" where
  "newManager opts svc w =
     \<lparr> mgr_options = opts,
       stateRef = 0,
       abortController = None,
       states = (\<lambda>a. \<lparr> isTransforming = False, currentPhase = Completed, progress = 0,
                        lastTransformTime = 0, transformHistory = 1, failedAttempts = 0 \<rparr>),
       arrays = (\<lambda>a. []),
       nextAddr = 2,
       apiService = svc,
       mgr_world = w,
       awaits = 0 \<rparr>"

definition defaultManagerOptions :: TransformManagerOptions where
  "defaultManagerOptions =
     \<lparr> phase1Threshold = 50, phase2Threshold = 100, enableProgressiveTransform = True,
       maxTransformAttempts = 3 \<rparr>"

definition st :: "manager \<Rightarrow> TransformState" where
  "st m = states m (stateRef m)"

definition history :: "manager \<Rightarrow> TransformResult list" where
  "history m = arrays m (transformHistory (st m))"

text \<open>\<open>setState\<close>: \<open>Object.assign(this.state, newState)\<close>, the assignments given as a function.\<close>

definition setState :: "(TransformState \<Rightarrow> TransformState) \<Rightarrow> manager \<Rightarrow> manager" where
  "setState newState m = m\<lparr>states := (states m)(stateRef m := newState (st m))\<rparr>"

definition createError :: "ErrorTag \<Rightarrow> string \<Rightarrow> thrown option \<Rightarrow> int \<Rightarrow> thrown" where
  "createError t msg details now = PlainError t msg details None now"

text \<open>
  \<open>updateProgress\<close>. It calls each progress callback inside a \<open>try\<close>/\<open>catch\<close> of its own,
  so a callback cannot make it throw; the callbacks are observers and are not modelled.
\<close>

definition updateProgress :: "phase \<Rightarrow> rat \<Rightarrow> manager \<Rightarrow> manager" where
  "updateProgress ph p m =
     setState (\<lambda>t. t\<lparr>currentPhase := ph, progress := min 100 (max 0 p)\<rparr>) m"

definition checkAborted :: "manager \<Rightarrow> thrown + unit" where
  "checkAborted m =
     (if abortController m = Some True
      then Inl (createError VALIDATION_ERROR ''Transform was cancelled'' None
                  (clock (mgr_world m)))
      else Inr ())"

definition cancelTransform :: "manager \<Rightarrow> manager" where
  "cancelTransform m =
     (let m1 = (if abortController m \<noteq> None then m\<lparr>abortController := Some True\<rparr> else m);
          m2 = setState (\<lambda>t. t\<lparr>isTransforming := False, currentPhase := Completed,
                               progress := 0\<rparr>) m1
      in updateProgress Error 0 m2)"

text \<open>A suspension point (\<open>await\<close>): the client may call \<open>cancelTransform\<close> while the
  manager is suspended.\<close>

definition suspend :: "oenv \<Rightarrow> manager \<Rightarrow> manager" where
  "suspend oe m =
     (let m1 = m\<lparr>awaits := awaits m + 1\<rparr>
      in if cancelAt oe (awaits m) then cancelTransform m1 else m1)"

definition sleepM :: "oenv \<Rightarrow> rat \<Rightarrow> manager \<Rightarrow> manager" where
  "sleepM oe ms m = suspend oe (m\<lparr>mgr_world := sleep ms (mgr_world m)\<rparr>)"

text \<open>Sequencing of steps that may throw.\<close>

definition bindE ::
  "(thrown + 'a) \<times> manager \<Rightarrow> ('a \<Rightarrow> manager \<Rightarrow> (thrown + 'b) \<times> manager)
     \<Rightarrow> (thrown + 'b) \<times> manager" where
  "bindE r f = (case r of (Inl error, m) \<Rightarrow> (Inl error, m) | (Inr x, m) \<Rightarrow> f x m)"

section \<open>ImageTransformManager: transformImage\<close>

definition prepareImageForTransform :: "oenv \<Rightarrow> string \<Rightarrow> manager \<Rightarrow> (thrown + string) \<times> manager" where
  "prepareImageForTransform oe sourceImage m = (prepareImage oe sourceImage, suspend oe m)"

function simulateUploadProgress :: "oenv \<Rightarrow> nat \<Rightarrow> manager \<Rightarrow> (thrown + unit) \<times> manager" where
  "simulateUploadProgress oe i m =
     (if i \<le> 5
      then (case checkAborted m of
              Inl error \<Rightarrow> (Inl error, m)
            | Inr u \<Rightarrow>
                simulateUploadProgress oe (i + 1)
                  (sleepM oe 200 (updateProgress Uploading (20 + (of_nat i / 5) * 20) m)))
      else (Inr (), m))"
  by pat_completeness auto
termination
  by (relation "measure (\<lambda>(oe, i, m). 6 - i)") auto

declare simulateUploadProgress.simps [simp del]

text \<open>The options that \<open>performTransform\<close> passes to the service.\<close>

definition transformOptionsFor :: "TransformType \<Rightarrow> TransformOptions" where
  "transformOptionsFor transformType =
     [Strength (if transformType = heavy then 8 / 10 else 4 / 10),
      Steps (if transformType = heavy then 40 else 30)]"

function performTransformLoop ::
  "oenv \<Rightarrow> nat \<Rightarrow> string \<Rightarrow> TransformType \<Rightarrow> nat \<Rightarrow> thrown option \<Rightarrow> manager
     \<Rightarrow> (thrown + string) \<times> manager" where
  "performTransformLoop oe maxAttempts imageBase64 transformType attempt lastError m =
     (if attempt \<le> maxAttempts
      then (let m1 = updateProgress Processing (50 + (of_nat attempt - 1) * 10) m
            in case transformImage (api oe) (apiService m1) (mgr_world m1) imageBase64
                      transformType (transformOptionsFor transformType) of
                 (outcome, svc1, w1) \<Rightarrow>
                   (let m2 = suspend oe (m1\<lparr>apiService := svc1, mgr_world := w1\<rparr>)
                    in case outcome of
                         Inr result \<Rightarrow> (Inr result, m2)
                       | Inl error \<Rightarrow>
                           if attempt < maxAttempts
                           then (let delay = min (1000 * of_nat attempt) 5000;
                                     m3 = updateProgress Processing (50 + of_nat attempt * 10) m2;
                                     m4 = sleepM oe delay m3
                                 in case checkAborted m4 of
                                      Inl aborted \<Rightarrow> (Inl aborted, m4)
                                    | Inr u \<Rightarrow>
                                        performTransformLoop oe maxAttempts imageBase64
                                          transformType (attempt + 1) (Some error) m4)
                           else performTransformLoop oe maxAttempts imageBase64
                                  transformType (attempt + 1) (Some error) m2))
      else (Inl (case lastError of
                   Some error \<Rightarrow> error
                 | None \<Rightarrow> createError API_ERROR ''All transform attempts failed'' None
                             (clock (mgr_world m))), m))"
  by pat_completeness auto
termination
  by (relation "measure (\<lambda>(oe, maxAttempts, imageBase64, transformType, attempt, lastError, m).
                  Suc maxAttempts - attempt)") auto

declare performTransformLoop.simps [simp del]

definition performTransform ::
  "oenv \<Rightarrow> string \<Rightarrow> TransformType \<Rightarrow> manager \<Rightarrow> (thrown + string) \<times> manager" where
  "performTransform oe imageBase64 transformType m =
     performTransformLoop oe (maxTransformAttempts (mgr_options m)) imageBase64 transformType
       1 None m"

definition createImageFromBase64 :: "oenv \<Rightarrow> string \<Rightarrow> manager \<Rightarrow> (thrown + string) \<times> manager" where
  "createImageFromBase64 oe base64 m =
     (if imageLoads oe base64 then Inr base64
      else Inl (createError RENDER_ERROR ''Failed to load transformed image'' None
                  (clock (mgr_world m))),
      suspend oe m)"

definition pushHistory :: "TransformResult \<Rightarrow> manager \<Rightarrow> manager" where
  "pushHistory r m =
     m\<lparr>arrays := (arrays m)(transformHistory (st m) := arrays m (transformHistory (st m)) @ [r])\<rparr>"

definition check :: "manager \<Rightarrow> (thrown + unit) \<times> manager" where
  "check m = (checkAborted m, m)"

text \<open>The \<open>try\<close> block of \<open>transformImage\<close>.\<close>

definition transformImage_try ::
  "oenv \<Rightarrow> string \<Rightarrow> TransformType \<Rightarrow> int \<Rightarrow> manager \<Rightarrow> (thrown + TransformResult) \<times> manager" where
  "transformImage_try oe sourceImage transformType startTime m =
     bindE (prepareImageForTransform oe sourceImage
              (updateProgress Preparing 10
                 (setState (\<lambda>t. t\<lparr>isTransforming := True, currentPhase := Preparing,
                                     progress := 0, failedAttempts := 0\<rparr>) m)))
       (\<lambda>imageBase64 m. bindE (check m)
       (\<lambda>u m. bindE (simulateUploadProgress oe 1 (updateProgress Uploading 20 m))
       (\<lambda>u m. bindE (check m)
       (\<lambda>u m. bindE (performTransform oe imageBase64 transformType
                        (updateProgress Processing 50 m))
       (\<lambda>transformedBase64 m. bindE (check m)
       (\<lambda>u m. bindE (createImageFromBase64 oe transformedBase64
                        (updateProgress Downloading 80 m))
       (\<lambda>transformedImage m. bindE (check m)
       (\<lambda>u m.
          (let m1 = updateProgress Completed 100 m;
               result = \<lparr> tr_success = True,
                          tr_transformedImage = Some transformedImage,
                          tr_originalImage = Some sourceImage,
                          tr_transformType = transformType,
                          tr_processingTime = clock (mgr_world m1) - startTime,
                          tr_error = None \<rparr>;
               m2 = pushHistory result m1;
               m3 = setState (\<lambda>t. t\<lparr>lastTransformTime := clock (mgr_world m2)\<rparr>) m2
           in (Inr result, m3))))))))))"

text \<open>The \<open>catch\<close> block of \<open>transformImage\<close>.\<close>

definition transformImage_handler ::
  "string \<Rightarrow> TransformType \<Rightarrow> int \<Rightarrow> thrown \<Rightarrow> manager \<Rightarrow> thrown \<times> manager" where
  "transformImage_handler sourceImage transformType startTime error m =
     (let transformError =
            (if instanceofError error \<and> typeOf error \<noteq> None then error
             else createError API_ERROR ''Transform failed'' (Some error)
                    (clock (mgr_world m)));
          m1 = updateProgress Error (progress (st m)) m;
          result = \<lparr> tr_success = False,
                     tr_transformedImage = None,
                     tr_originalImage = Some sourceImage,
                     tr_transformType = transformType,
                     tr_processingTime = clock (mgr_world m1) - startTime,
                     tr_error = Some transformError \<rparr>;
          m2 = pushHistory result m1;
          m3 = setState (\<lambda>t. t\<lparr>failedAttempts := failedAttempts t + 1\<rparr>) m2
      in (transformError, m3))"

text \<open>The \<open>finally\<close> block of \<open>transformImage\<close>.\<close>

definition transformImage_finally :: "manager \<Rightarrow> manager" where
  "transformImage_finally m =
     (setState (\<lambda>t. t\<lparr>isTransforming := False, currentPhase := Completed\<rparr>) m)
       \<lparr>abortController := None\<rparr>"

text \<open>The manager's \<open>transformImage\<close> (named apart from the service's).\<close>

definition manager_transformImage ::
  "oenv \<Rightarrow> string \<Rightarrow> TransformType \<Rightarrow> manager \<Rightarrow> (thrown + TransformResult) \<times> manager" where
  "manager_transformImage oe sourceImage transformType m =
     (if isTransforming (st m)
      then (Inl (createError VALIDATION_ERROR ''Transform already in progress'' None
                   (clock (mgr_world m))), m)
      else
        (let startTime = clock (mgr_world m)
         in case transformImage_try oe sourceImage transformType startTime
                   (m\<lparr>abortController := Some False\<rparr>) of
              (Inr result, m1) \<Rightarrow> (Inr result, transformImage_finally m1)
            | (Inl error, m1) \<Rightarrow>
                (case transformImage_handler sourceImage transformType startTime error m1 of
                   (transformError, m2) \<Rightarrow> (Inl transformError, transformImage_finally m2))))"

section \<open>ImageTransformManager: snapshots\<close>

text \<open>
  \<open>getTransformHistory\<close> returns \<open>[...this.state.transformHistory]\<close>: a new array with the
  same elements. \<open>getState\<close> returns \<open>{ ...this.state }\<close>: a new object with the same field
  values, among them the reference to the history array. Both return the address of the
  new object.
\<close>

definition getTransformHistory :: "manager \<Rightarrow> nat \<times> manager" where
  "getTransformHistory m =
     (nextAddr m,
      m\<lparr>arrays := (arrays m)(nextAddr m := arrays m (transformHistory (st m))),
        nextAddr := nextAddr m + 1\<rparr>)"

definition getState :: "manager \<Rightarrow> nat \<times> manager" where
  "getState m =
     (nextAddr m,
      m\<lparr>states := (states m)(nextAddr m := st m), nextAddr := nextAddr m + 1\<rparr>)"

definition clearHistory :: "manager \<Rightarrow> manager" where
  "clearHistory m =
     (let m1 = m\<lparr>arrays := (arrays m)(nextAddr m := []), nextAddr := nextAddr m + 1\<rparr>
      in setState (\<lambda>t. t\<lparr>transformHistory := nextAddr m, failedAttempts := 0\<rparr>) m1)"

text \<open>
  What a consumer can do with a reference it holds: mutate the array at an address in place
  (\<open>push\<close>, \<open>pop\<close>, \<open>splice\<close>, an indexed store, ...) or assign fields of the object at an
  address.
\<close>

definition mutateArray ::
  "nat \<Rightarrow> (TransformResult list \<Rightarrow> TransformResult list) \<Rightarrow> manager \<Rightarrow> manager" where
  "mutateArray a f m = m\<lparr>arrays := (arrays m)(a := f (arrays m a))\<rparr>"

definition mutateObject ::
  "nat \<Rightarrow> (TransformState \<Rightarrow> TransformState) \<Rightarrow> manager \<Rightarrow> manager" where
  "mutateObject a g m = m\<lparr>states := (states m)(a := g (states m a))\<rparr>"

text \<open>The heap is well formed when the manager's own objects are allocated.\<close>

definition heapOk :: "manager \<Rightarrow> bool" where
  "heapOk m = (stateRef m < nextAddr m \<and> transformHistory (st m) < nextAddr m)"

text \<open>A sequence of transforms, each awaited before the next; outcomes are dropped.\<close>

fun runTransforms :: "oenv \<Rightarrow> (string \<times> TransformType) list \<Rightarrow> manager \<Rightarrow> manager" where
  "runTransforms oe [] m = m"
| "runTransforms oe (r # rs) m =
     runTransforms oe rs (snd (manager_transformImage oe (fst r) (snd r) m))"

definition managerEnv :: "env \<Rightarrow> oenv" where
  "managerEnv e =
     \<lparr> api = e,
       prepareImage = (\<lambda>sourceImage. Inr (''data:image/jpeg;base64,'' @ sourceImage)),
       imageLoads = (\<lambda>base64. True),
       cancelAt = (\<lambda>k. False) \<rparr>"

declare runTransforms.simps [simp del]

text \<open>
  Relations between a manager before and after a step, used to state what the steps of
  \<open>transformImage\<close> leave alone: the history array and the references to it
  (\<open>sameHist\<close>), the outcome of the \<open>try\<close> block (\<open>tryPost\<close>), and a completed call
  that appended one result (\<open>appended\<close>).
\<close>

definition sameHist :: "manager \<Rightarrow> manager \<Rightarrow> bool" where
  "sameHist m m' =
     (stateRef m' = stateRef m \<and> arrays m' = arrays m
      \<and> transformHistory (st m') = transformHistory (st m))"

definition tryPost ::
  "manager \<Rightarrow> string \<Rightarrow> TransformType \<Rightarrow> (thrown + TransformResult) \<times> manager \<Rightarrow> bool" where
  "tryPost m sourceImage transformType rm =
     (stateRef (snd rm) = stateRef m
      \<and> transformHistory (st (snd rm)) = transformHistory (st m)
      \<and> (case fst rm of
            Inl error \<Rightarrow> arrays (snd rm) = arrays m
          | Inr r \<Rightarrow>
              arrays (snd rm)
                = (arrays m)(transformHistory (st m) := arrays m (transformHistory (st m)) @ [r])
              \<and> tr_success r \<and> tr_transformType r = transformType
              \<and> tr_originalImage r = Some sourceImage))"

definition appended :: "manager \<Rightarrow> TransformResult \<Rightarrow> manager \<Rightarrow> bool" where
  "appended m r m' =
     (stateRef m' = stateRef m \<and> transformHistory (st m') = transformHistory (st m)
      \<and> history m' = history m @ [r] \<and> \<not> isTransforming (st m'))"

text \<open>
  Conditions on a run of the manager's \<open>transformImage\<close>: every network exchange fails
  with a classified \<open>SERVER_ERROR\<close>; the number of attempts the service allows itself;
  the service has a key configured and holds neither a cached result nor a pending request
  for the request key; the client never cancels. \<open>sameCore\<close> relates a manager before
  and after a step that leaves the service, the exchange counters, the options and the
  abort flag alone; \<open>outcomeType\<close> is the \<open>type\<close> of the error a call rejects with.
\<close>

definition allServerError :: "env \<Rightarrow> bool" where
  "allServerError e =
     (\<forall>k request requestId now. \<exists>err.
        attemptOutcome requestId now (net e k request) = Inl err
          \<and> typeOf err = Some SERVER_ERROR)"

definition maxRetriesOf :: "APIService \<Rightarrow> nat" where
  "maxRetriesOf svc = (if enableRetry (svc_options svc) then retryCount (svc_config svc) else 1)"

definition serviceReady :: "APIService \<Rightarrow> string \<Rightarrow> bool" where
  "serviceReady svc key =
     (apiKey (svc_config svc) \<noteq> [] \<and> Map_get (requestCache svc) key = None
      \<and> Map_get (activeRequests svc) key = None)"

definition noCancel :: "oenv \<Rightarrow> bool" where
  "noCancel oe = (\<forall>k. \<not> cancelAt oe k)"

definition sameCore :: "manager \<Rightarrow> manager \<Rightarrow> bool" where
  "sameCore m m' =
     (apiService m' = apiService m
      \<and> netCalls (mgr_world m') = netCalls (mgr_world m)
      \<and> executions (mgr_world m') = executions (mgr_world m)
      \<and> mgr_options m' = mgr_options m
      \<and> abortController m' = abortController m)"

fun outcomeType :: "thrown + 'a \<Rightarrow> ErrorTag option" where
  "outcomeType (Inl error) = typeOf error"
| "outcomeType (Inr result) = None"

section \<open>Retry delay\<close>

text \<open>
  C8. For every attempt number \<open>n \<ge> 1\<close> the retry delay is
  \<open>min (1000 * 2 ^ (n - 1)) 10000\<close> milliseconds; it is a function of \<open>n\<close> alone.
\<close>

theorem calculateRetryDelay_exponential:
  assumes "1 \<le> n"
  shows "calculateRetryDelay n = of_nat (min (1000 * 2 ^ (nat n - 1)) 10000)"
proof -
  have "nat (n - 1) = nat n - 1"
    using assms by simp
  then have "calculateRetryDelay n = min (1000 * 2 ^ (nat n - 1)) 10000"
    using assms by (simp add: calculateRetryDelay_def Math_pow2_def)
  also have "\<dots> = of_nat (min (1000 * 2 ^ (nat n - 1)) 10000)"
    by (simp add: of_nat_min)
  finally show ?thesis .
qed

theorem calculateRetryDelay_exponential_witness:
  "(1::int) \<le> 3 \<and> calculateRetryDelay 3 = 4000"
  using calculateRetryDelay_exponential [of 3] by simp

section \<open>Result cache\<close>

lemma Map_get_Map_set: "Map_get (Map_set m k v) k = Some v"
  by (induction m) (auto simp: Map_get_def)

lemma Map_get_Map_set_other: "k' \<noteq> k \<Longrightarrow> Map_get (Map_set m k v) k' = Map_get m k'"
  by (induction m) (auto simp: Map_get_def)

lemma Map_get_Map_delete: "Map_get (Map_delete m k) k = None"
  by (induction m) (auto simp: Map_get_def Map_delete_def)

lemma Map_get_Map_delete_other: "k' \<noteq> k \<Longrightarrow> Map_get (Map_delete m k) k' = Map_get m k'"
  by (induction m) (auto simp: Map_get_def Map_delete_def)

lemma length_Map_set: "length (Map_set m k v) \<le> Suc (length m)"
  by (induction m) auto

lemma length_Map_delete: "length (Map_delete m k) \<le> length m"
  by (simp add: Map_delete_def)

lemma set_Map_set: "set (Map_set m k v) \<subseteq> insert (k, v) (set m)"
  by (induction m) (auto split: if_splits)

lemma keys_Map_set: "fst ` set (Map_set m k v) = insert k (fst ` set m)"
  by (induction m) (force split: if_splits)+

lemma distinct_Map_set: "distinct (map fst m) \<Longrightarrow> distinct (map fst (Map_set m k v))"
  by (induction m) (auto simp: keys_Map_set)

lemma set_Map_delete: "set (Map_delete m k) \<subseteq> set m"
  by (auto simp: Map_delete_def)

lemma distinct_Map_delete: "distinct (map fst m) \<Longrightarrow> distinct (map fst (Map_delete m k))"
  by (simp add: Map_delete_def distinct_map_filter)

lemma Map_delete_first:
  "distinct (map fst m) \<Longrightarrow> Map_first_key m = Some k \<Longrightarrow> Map_delete m k = tl m"
proof (cases m)
  case Nil
  then show "Map_first_key m = Some k \<Longrightarrow> Map_delete m k = tl m" by simp
next
  case (Cons kv rest)
  assume d: "distinct (map fst m)" and f: "Map_first_key m = Some k"
  from f Cons have k: "fst kv = k" by (cases kv) simp
  from d Cons k have "k \<notin> fst ` set rest" by simp
  then have "\<forall>x \<in> set rest. fst x \<noteq> k" by blast
  then have "filter (\<lambda>x. fst x \<noteq> k) rest = rest" by (simp add: filter_id_conv)
  with Cons k show "Map_delete m k = tl m" by (simp add: Map_delete_def)
qed

lemma generateRequestKey_nonempty: "generateRequestKey imageBase64 transformType options \<noteq> []"
  by (simp add: generateRequestKey_def)

lemma cacheResult_options: "svc_options (cacheResult now svc key result) = svc_options svc"
  by (simp add: cacheResult_def Let_def)

lemma getCachedResult_options:
  "svc_options (snd (getCachedResult now svc i t opts)) = svc_options svc"
  by (simp add: getCachedResult_def Let_def split: option.splits)

lemma cacheResult_at_capacity:
  assumes "cacheInv svc" and "length (requestCache svc) = maxCacheSize (svc_options svc)"
    and "1 \<le> maxCacheSize (svc_options svc)"
  shows "requestCache (cacheResult now svc key result) =
           Map_set (tl (requestCache svc)) key
             \<lparr> ce_key = key, ce_result = result, ce_timestamp = now,
               ce_expiresAt = now + 24 * 60 * 60 * 1000 \<rparr>"
proof -
  from assms obtain kv rest where m: "requestCache svc = kv # rest"
    by (cases "requestCache svc") auto
  then have f: "Map_first_key (requestCache svc) = Some (fst kv)"
    by (cases kv) simp
  from assms(1) m have ne: "fst kv \<noteq> []" and d: "distinct (map fst (requestCache svc))"
    by (auto simp: cacheInv_def)
  from Map_delete_first [OF d f] have "Map_delete (requestCache svc) (fst kv) = tl (requestCache svc)" .
  with f ne assms(2) show ?thesis
    by (simp add: cacheResult_def Let_def)
qed

lemma cacheInv_cacheResult:
  assumes "cacheInv svc" and "1 \<le> maxCacheSize (svc_options svc)" and "key \<noteq> []"
  shows "cacheInv (cacheResult now svc key result)"
proof (cases "length (requestCache svc) \<ge> maxCacheSize (svc_options svc)")
  case True
  with assms(1) have eq: "length (requestCache svc) = maxCacheSize (svc_options svc)"
    by (simp add: cacheInv_def)
  let ?entry = "\<lparr> ce_key = key, ce_result = result, ce_timestamp = now,
               ce_expiresAt = now + 24 * 60 * 60 * 1000 \<rparr>"
  have c: "requestCache (cacheResult now svc key result) = Map_set (tl (requestCache svc)) key ?entry"
    using cacheResult_at_capacity [OF assms(1) eq assms(2)] .
  have l: "length (Map_set (tl (requestCache svc)) key ?entry) \<le> maxCacheSize (svc_options svc)"
    using length_Map_set [of "tl (requestCache svc)" key ?entry] eq assms(2) by simp
  have d: "distinct (map fst (Map_set (tl (requestCache svc)) key ?entry))"
    using assms(1) by (intro distinct_Map_set) (simp add: cacheInv_def map_tl distinct_tl)
  have s: "\<forall>kv \<in> set (Map_set (tl (requestCache svc)) key ?entry). fst kv \<noteq> [] \<and> ce_timestamp (snd kv) < ce_expiresAt (snd kv)"
  proof
    fix kv assume "kv \<in> set (Map_set (tl (requestCache svc)) key ?entry)"
    then have "kv = (key, ?entry) \<or> kv \<in> set (tl (requestCache svc))"
      using set_Map_set [of "tl (requestCache svc)" key ?entry] by auto
    then show "fst kv \<noteq> [] \<and> ce_timestamp (snd kv) < ce_expiresAt (snd kv)"
    proof
      assume "kv = (key, ?entry)" then show ?thesis using assms(3) by simp
    next
      assume "kv \<in> set (tl (requestCache svc))"
      then have "kv \<in> set (requestCache svc)" by (rule list.set_sel(2) [rotated]) (use eq assms(2) in auto)
      then show ?thesis using assms(1) by (simp add: cacheInv_def)
    qed
  qed
  show ?thesis
    unfolding cacheInv_def cacheResult_options c using l d s by simp
next
  case False
  let ?entry = "\<lparr> ce_key = key, ce_result = result, ce_timestamp = now,
               ce_expiresAt = now + 24 * 60 * 60 * 1000 \<rparr>"
  from False have c: "requestCache (cacheResult now svc key result) = Map_set (requestCache svc) key ?entry"
    by (simp add: cacheResult_def Let_def)
  have l: "length (Map_set (requestCache svc) key ?entry) \<le> maxCacheSize (svc_options svc)"
    using length_Map_set [of "requestCache svc" key ?entry] False by simp
  have d: "distinct (map fst (Map_set (requestCache svc) key ?entry))"
    using assms(1) by (intro distinct_Map_set) (simp add: cacheInv_def)
  have s: "\<forall>kv \<in> set (Map_set (requestCache svc) key ?entry). fst kv \<noteq> [] \<and> ce_timestamp (snd kv) < ce_expiresAt (snd kv)"
  proof
    fix kv assume "kv \<in> set (Map_set (requestCache svc) key ?entry)"
    then have "kv = (key, ?entry) \<or> kv \<in> set (requestCache svc)"
      using set_Map_set [of "requestCache svc" key ?entry] by auto
    then show "fst kv \<noteq> [] \<and> ce_timestamp (snd kv) < ce_expiresAt (snd kv)"
      using assms(1,3) by (auto simp: cacheInv_def)
  qed
  show ?thesis
    unfolding cacheInv_def cacheResult_options c using l d s by simp
qed

lemma cacheInv_getCachedResult:
  assumes "cacheInv svc"
  shows "cacheInv (snd (getCachedResult now svc i t opts))"
proof -
  have "cacheInv (svc\<lparr>requestCache := Map_delete (requestCache svc) k\<rparr>)" for k
    using assms length_Map_delete [of "requestCache svc" k] set_Map_delete [of "requestCache svc" k]
      distinct_Map_delete [of "requestCache svc" k]
    by (auto simp: cacheInv_def)
  then show ?thesis using assms
    by (simp add: getCachedResult_def Let_def split: option.splits)
qed

lemma cacheInv_applyCacheOp:
  "cacheInv svc \<Longrightarrow> 1 \<le> maxCacheSize (svc_options svc) \<Longrightarrow> cacheInv (applyCacheOp svc op)"
  by (cases op) (simp_all add: cacheInv_getCachedResult cacheInv_cacheResult generateRequestKey_nonempty,
      simp add: cacheInv_def clearCache_def)

lemma applyCacheOp_options: "svc_options (applyCacheOp svc op) = svc_options svc"
  by (cases op) (simp_all add: getCachedResult_options cacheResult_options clearCache_def)

lemma cacheInv_foldl:
  "cacheInv svc \<Longrightarrow> 1 \<le> maxCacheSize (svc_options svc) \<Longrightarrow>
     cacheInv (foldl applyCacheOp svc ops) \<and> svc_options (foldl applyCacheOp svc ops) = svc_options svc"
proof (induction ops arbitrary: svc)
  case Nil
  then show ?case by simp
next
  case (Cons op ops)
  have "cacheInv (applyCacheOp svc op)" using Cons.prems by (rule cacheInv_applyCacheOp)
  moreover have "1 \<le> maxCacheSize (svc_options (applyCacheOp svc op))"
    using Cons.prems by (simp add: applyCacheOp_options)
  ultimately show ?case using Cons.IH [of "applyCacheOp svc op"]
    by (simp add: applyCacheOp_options)
qed

lemmas eval_defs =
  generateRequestKey_def simpleHash_def optionsJSON_def json_string_def json_escape_def
  dquote_def backslash_def hashStep_def toStringRadix.simps Number_toString_def digit_char_def
  mockAPIConfig_def newAPIService_def newWorld_def alwaysStatus_def Let_def

lemma getCachedResult_hit_same:
  "fst (getCachedResult now svc i t opts) = Some r \<Longrightarrow> snd (getCachedResult now svc i t opts) = svc"
  by (simp add: getCachedResult_def Let_def split: option.splits if_splits)

text \<open>
  C6, as stated, fails for a service configured with \<open>maxCacheSize = 0\<close>: the size test
  finds no oldest key to delete and the entry is inserted all the same, so the cache holds
  one entry over a capacity of zero.
\<close>

theorem cache_capacity_zero_counterexample:
  "\<not> length (requestCache (foldl applyCacheOp (newAPIService mockAPIConfig True True 0)
                [CachePut 0 ''img'' light [] ''data:r'']))
       \<le> maxCacheSize (svc_options (newAPIService mockAPIConfig True True 0))"
  by (simp add: cacheResult_def newAPIService_def)

text \<open>
  C6 (amended). For a service constructed with an integer capacity \<open>maxCacheSize \<ge> 1\<close>,
  after every sequence of cache operations (lookups, insertions under request keys, clears):
  the cache holds at most \<open>maxCacheSize\<close> entries; every stored entry has
  \<open>expiresAt > timestamp\<close>; an insertion that finds the cache at capacity removes exactly
  the first-inserted entry and then stores the new one; and a lookup that hits leaves the
  cache, and so the eviction order, unchanged.
\<close>

theorem cache_capacity_eviction_expiry:
  assumes "1 \<le> maxCacheSize (svc_options svc0)" and "requestCache svc0 = []"
  shows "let svc = foldl applyCacheOp svc0 ops;
             key = generateRequestKey imageBase64 transformType options
         in length (requestCache svc) \<le> maxCacheSize (svc_options svc0)
          \<and> (\<forall>kv \<in> set (requestCache svc). ce_timestamp (snd kv) < ce_expiresAt (snd kv))
          \<and> (length (requestCache svc) = maxCacheSize (svc_options svc0) \<longrightarrow>
                requestCache (cacheResult now svc key result)
                  = Map_set (tl (requestCache svc)) key (newEntry now key result))
          \<and> (\<forall>r. fst (getCachedResult now svc imageBase64 transformType options) = Some r \<longrightarrow>
                snd (getCachedResult now svc imageBase64 transformType options) = svc)"
proof -
  let ?svc = "foldl applyCacheOp svc0 ops"
  have "cacheInv svc0" using assms by (simp add: cacheInv_def)
  from cacheInv_foldl [OF this assms(1), of ops]
  have inv: "cacheInv ?svc" and opt: "svc_options ?svc = svc_options svc0" by simp_all
  have 1: "length (requestCache ?svc) \<le> maxCacheSize (svc_options svc0)"
    using inv opt by (simp add: cacheInv_def)
  have 2: "\<forall>kv \<in> set (requestCache ?svc). ce_timestamp (snd kv) < ce_expiresAt (snd kv)"
    using inv by (simp add: cacheInv_def)
  have 3: "length (requestCache ?svc) = maxCacheSize (svc_options svc0) \<longrightarrow>
        requestCache (cacheResult now ?svc key result)
          = Map_set (tl (requestCache ?svc)) key (newEntry now key result)" for key
    using cacheResult_at_capacity [OF inv, of now key result] assms(1) opt
    by (simp add: newEntry_def)
  show ?thesis
    unfolding Let_def using 1 2 3 getCachedResult_hit_same by blast
qed

theorem cache_capacity_eviction_expiry_witness:
  "(let svc0 = newAPIService mockAPIConfig True True 2;
       ops = [CachePut 0 ''a'' light [] ''data:1'', CachePut 5 ''b'' light [] ''data:2'',
              CacheGet 7 ''a'' light [], CachePut 9 ''c'' light [] ''data:3''];
       svc = foldl applyCacheOp svc0 ops
   in 1 \<le> maxCacheSize (svc_options svc0) \<and> requestCache svc0 = []
      \<and> map fst (requestCache svc)
          = [generateRequestKey ''b'' light [], generateRequestKey ''c'' light []]
      \<and> length (requestCache svc) = maxCacheSize (svc_options svc0)
      \<and> fst (getCachedResult 10 svc ''b'' light []) = Some ''data:2''
      \<and> map fst (requestCache (cacheResult 11 svc (generateRequestKey ''d'' light []) ''data:4''))
          = [generateRequestKey ''c'' light [], generateRequestKey ''d'' light []])"
  using cache_capacity_eviction_expiry [of "newAPIService mockAPIConfig True True 2"
     "[CachePut 0 ''a'' light [] ''data:1'', CachePut 5 ''b'' light [] ''data:2'',
       CacheGet 7 ''a'' light [], CachePut 9 ''c'' light [] ''data:3'']"
     "''d''" light "[]" 11 "''data:4''"]
  by (simp add: newAPIService_def cacheResult_def getCachedResult_def Map_get_def Map_delete_def
      newEntry_def eval_defs)

section \<open>Cache expiry\<close>

text \<open>
  C7, as stated, fails at the boundary: an entry inserted at \<open>T = 0\<close> expires at
  \<open>86400000\<close>, and a lookup at exactly that time is still a hit that leaves the entry in
  the cache, because the test is \<open>Date.now() > entry.expiresAt\<close>.
\<close>

theorem cache_expiry_at_boundary_counterexample:
  "getCachedResult (0 + 86400000)
      (cacheResult 0 (newAPIService mockAPIConfig True True 50)
         (generateRequestKey ''img'' light []) ''data:r'')
      ''img'' light []
   = (Some ''data:r'',
      cacheResult 0 (newAPIService mockAPIConfig True True 50)
        (generateRequestKey ''img'' light []) ''data:r'')"
  by (simp add: getCachedResult_def cacheResult_def newAPIService_def Map_get_def Let_def)

text \<open>
  C7 (amended). For an entry inserted at time \<open>T\<close> (the time-to-live is fixed at
  \<open>86400000\<close> ms), a lookup at any time up to and including \<open>T + 86400000\<close> returns the
  cached result and leaves the cache as it is, and a lookup at any later time is a miss that
  removes the entry from the cache.
\<close>

theorem cache_expiry_boundary:
  "let key = generateRequestKey imageBase64 transformType options;
       svc1 = cacheResult T svc key result;
       lookup = getCachedResult now svc1 imageBase64 transformType options
   in (now \<le> T + 86400000 \<longrightarrow> lookup = (Some result, svc1))
    \<and> (now > T + 86400000 \<longrightarrow>
         fst lookup = None \<and> Map_get (requestCache (snd lookup)) key = None)"
  by (simp add: Let_def getCachedResult_def cacheResult_def Map_get_Map_set Map_get_Map_delete)

theorem cache_expiry_boundary_witness:
  "(let svc = newAPIService mockAPIConfig True True 50;
       svc1 = cacheResult 1000 svc (generateRequestKey ''img'' light []) ''data:r''
   in (86400999::int) \<le> 1000 + 86400000
    \<and> getCachedResult 86400999 svc1 ''img'' light [] = (Some ''data:r'', svc1)
    \<and> (86401001::int) > 1000 + 86400000
    \<and> fst (getCachedResult 86401001 svc1 ''img'' light []) = None)"
  using cache_expiry_boundary [of "''img''" light "[]" 1000
      "newAPIService mockAPIConfig True True 50" "''data:r''" 86400999]
    cache_expiry_boundary [of "''img''" light "[]" 1000
      "newAPIService mockAPIConfig True True 50" "''data:r''" 86401001]
  by (simp add: Let_def)

section \<open>Retry policy: rate limiting\<close>

lemma retryLoop_stop:
  assumes "attempt \<le> maxRetries"
    and "attemptOutcome requestId (clock w + int (latency e (netCalls w)))
           (net e (netCalls w) request) = Inl error"
    and "\<not> isRetryableError error"
  shows "retryLoop e request requestId maxRetries attempt lastError w =
           (Inl error, w\<lparr>netCalls := netCalls w + 1,
                           clock := clock w + int (latency e (netCalls w))\<rparr>)"
  using assms by (subst retryLoop.simps) (simp add: throwLast_def Let_def)

lemma attemptOutcome_429:
  "attemptOutcome requestId now (Responds 429 statusText body) =
     Inl (PlainError RATE_LIMIT_ERROR (''HTTP 429: '' @ statusText) None (Some requestId) now)"
  by (simp add: attemptOutcome_def makeAPIRequest_def makeAPIRequest_catch_def response_ok_def
      createAPIError_def Number_toString_def toStringRadix.simps digit_char_def Let_def)

text \<open>
  C4 (amended). \<open>RATE_LIMIT_ERROR\<close> (HTTP status 429) is not retryable in the service's
  retry loop: when an attempt, at any attempt number up to the maximum, is answered with
  status 429, the loop stops at once and throws the \<open>RATE_LIMIT_ERROR\<close> built for that
  answer, after this one exchange and without sleeping.
\<close>

theorem rate_limit_stops_retry_loop:
  assumes "attempt \<le> maxRetries"
    and "net e (netCalls w) request = Responds 429 statusText body"
  shows "retryLoop e request requestId maxRetries attempt lastError w =
           (Inl (PlainError RATE_LIMIT_ERROR (''HTTP 429: '' @ statusText) None (Some requestId)
                   (clock w + int (latency e (netCalls w)))),
            w\<lparr>netCalls := netCalls w + 1, clock := clock w + int (latency e (netCalls w))\<rparr>)"
proof -
  let ?now = "clock w + int (latency e (netCalls w))"
  have "attemptOutcome requestId ?now (net e (netCalls w) request) =
          Inl (PlainError RATE_LIMIT_ERROR (''HTTP 429: '' @ statusText) None (Some requestId)
                 ?now)"
    using assms(2) by (simp add: attemptOutcome_429)
  moreover have "\<not> isRetryableError
      (PlainError RATE_LIMIT_ERROR (''HTTP 429: '' @ statusText) None (Some requestId) ?now)"
    by (simp add: isRetryableError_def)
  ultimately show ?thesis
    using assms(1) by (rule retryLoop_stop [rotated])
qed

theorem rate_limit_stops_retry_loop_witness:
  "(1::nat) \<le> 3
   \<and> net (alwaysStatus 429 ''Too Many Requests'') (netCalls newWorld)
        (buildRequest mockAPIConfig ''img'' light [])
       = Responds 429 ''Too Many Requests''
           (Inr \<lparr> rsp_success = False, rsp_message = None, rsp_image = None, rsp_error = None \<rparr>)
   \<and> retryLoop (alwaysStatus 429 ''Too Many Requests'')
        (buildRequest mockAPIConfig ''img'' light []) ''transform_1'' 3 1 None newWorld
       = (Inl (PlainError RATE_LIMIT_ERROR ''HTTP 429: Too Many Requests'' None
                 (Some ''transform_1'') 0),
          \<lparr> netCalls = 1, sleeps = [], clock = 0, executions = 0 \<rparr>)"
  using rate_limit_stops_retry_loop
      [where attempt = 1 and maxRetries = 3 and e = "alwaysStatus 429 ''Too Many Requests''"
         and w = newWorld and request = "buildRequest mockAPIConfig ''img'' light []"
         and statusText = "''Too Many Requests''" and requestId = "''transform_1''"
         and lastError = None
         and body = "Inr \<lparr> rsp_success = False, rsp_message = None, rsp_image = None,
                         rsp_error = None \<rparr>"]
  by (simp add: alwaysStatus_def newWorld_def)

text \<open>
  C4, as stated, fails: with three attempts allowed and a server that answers 429, the first
  attempt (below the maximum) ends the loop; one exchange is made and no delay is slept.
\<close>

theorem rate_limit_retry_counterexample:
  "performTransformation (alwaysStatus 429 ''Too Many Requests'')
      (newAPIService mockAPIConfig True True 50) ''img'' light [] ''transform_1'' newWorld
   = (Inl (PlainError RATE_LIMIT_ERROR ''HTTP 429: Too Many Requests'' None
             (Some ''transform_1'') 0),
      \<lparr> netCalls = 1, sleeps = [], clock = 0, executions = 1 \<rparr>)
   \<and> 1 < retryCount (svc_config (newAPIService mockAPIConfig True True 50))"
  by (simp add: performTransformation_def retryLoop.simps attemptOutcome_def makeAPIRequest_def
      makeAPIRequest_catch_def response_ok_def createAPIError_def isRetryableError_def
      throwLast_def eval_defs)

section \<open>Request keys and defaults\<close>

lemma digit_char_not_underscore: "digit_char d \<noteq> CHR ''_''"
proof -
  have "digit_char d \<in> set ''0123456789abcdefghijklmnopqrstuvwxyz''"
    unfolding digit_char_def by (rule nth_mem) simp
  then show ?thesis by auto
qed

lemma toStringRadix_no_underscore: "CHR ''_'' \<notin> set (toStringRadix b n)"
proof (induction b n rule: toStringRadix.induct)
  case (1 b n)
  show ?case
  proof (cases "b < 2 \<or> n < b")
    case True
    then show ?thesis
      using digit_char_not_underscore [of n] by (subst toStringRadix.simps) auto
  next
    case False
    then show ?thesis
      using 1 digit_char_not_underscore [of "n mod b"] by (subst toStringRadix.simps) auto
  qed
qed

lemma simpleHash_no_underscore: "CHR ''_'' \<notin> set (simpleHash s)"
  by (simp add: simpleHash_def toStringRadix_no_underscore)

lemma takeWhile_separator: "c \<notin> set a \<Longrightarrow> takeWhile (\<lambda>x. x \<noteq> c) (a @ c # b) = a"
  by (induction a) auto

lemma split_at_separator:
  assumes "c \<notin> set a" and "c \<notin> set a'" and "a @ c # b = a' @ c # b'"
  shows "a = a' \<and> b = b'"
proof -
  have "takeWhile (\<lambda>x. x \<noteq> c) (a @ c # b) = a"
    using assms(1) by (rule takeWhile_separator)
  moreover have "takeWhile (\<lambda>x. x \<noteq> c) (a' @ c # b') = a'"
    using assms(2) by (rule takeWhile_separator)
  ultimately have "a = a'" using assms(3) by simp
  with assms(3) show ?thesis by simp
qed

text \<open>
  C5 (amended). The request key is derived from the options as the caller supplied them,
  before any default is applied: two requests get the same key exactly when the hashes of
  their images agree and the hashes of the serialisations of
  \<open>{transformType, ...options}\<close> (the supplied properties, in their order) agree.
\<close>

theorem requestKey_from_supplied_options:
  "(generateRequestKey image1 type1 options1 = generateRequestKey image2 type2 options2)
     = (simpleHash image1 = simpleHash image2
        \<and> simpleHash (optionsJSON type1 options1) = simpleHash (optionsJSON type2 options2))"
  using split_at_separator [OF simpleHash_no_underscore simpleHash_no_underscore,
      of image1 "simpleHash (optionsJSON type1 options1)" image2
         "simpleHash (optionsJSON type2 options2)"]
  by (auto simp: generateRequestKey_def)

theorem requestKey_from_supplied_options_witness:
  "(generateRequestKey ''img'' light [Steps 30] = generateRequestKey ''img'' light [Steps 30])
     = (simpleHash ''img'' = simpleHash ''img''
        \<and> simpleHash (optionsJSON light [Steps 30]) = simpleHash (optionsJSON light [Steps 30]))"
  using requestKey_from_supplied_options [of "''img''" light "[Steps 30]" "''img''" light "[Steps 30]"]
  by simp

text \<open>
  C5, as stated, fails: a request that omits \<open>steps\<close> and one that passes the default
  \<open>steps = 30\<close> explicitly resolve to the same wire request and yet get different keys.
\<close>

theorem requestKey_defaults_counterexample:
  "buildRequest mockAPIConfig ''img'' light [] = buildRequest mockAPIConfig ''img'' light [Steps 30]
   \<and> generateRequestKey ''img'' light [] \<noteq> generateRequestKey ''img'' light [Steps 30]"
  by (simp add: buildRequest_def eval_defs)


section \<open>Single flight\<close>

lemma sleep_simps [simp]:
  "executions (sleep ms w) = executions w"
  "netCalls (sleep ms w) = netCalls w"
  "sleeps (sleep ms w) = sleeps w @ [ms]"
  "clock (sleep ms w) = clock w + \<lceil>ms\<rceil>"
  by (simp_all add: sleep_def)

lemma retryLoop_executions:
  "executions (snd (retryLoop e request requestId maxRetries attempt lastError w)) = executions w"
proof (induction e request requestId maxRetries attempt lastError w rule: retryLoop.induct)
  case (1 e request requestId maxRetries attempt lastError w)
  show ?case
    using 1 by (subst retryLoop.simps) (auto simp: Let_def split: sum.splits)
qed








lemma transformImage_begin_alt:
  "transformImage_begin e svc w i t opts =
     (if apiKey (svc_config svc) = []
      then (Inl (Inl (createAPIError AUTH_ERROR ''API key not configured'' None None (clock w))),
            svc, w)
      else
        (let svc1 = svc\<lparr>requestIdCounter := requestIdCounter svc + 1\<rparr>;
             requestId = requestIdOf (requestIdCounter svc + 1);
             cachedResult = fst (cacheLookup svc1 (clock w) i t opts);
             svc2 = snd (cacheLookup svc1 (clock w) i t opts)
         in if cachedResult \<noteq> None \<and> cachedResult \<noteq> Some []
            then (Inl (Inr (the cachedResult)), svc2, w)
            else
              (case Map_get (activeRequests svc2) (generateRequestKey i t opts) of
                    Some promise \<Rightarrow> (Inr (Joiner requestId promise), svc2, w)
                  | None \<Rightarrow>
                       (Inr (Owner requestId (generateRequestKey i t opts)
                               (fst (performTransformation e svc2 i t opts requestId w))),
                           svc2\<lparr>activeRequests :=
                                  Map_set (activeRequests svc2) (generateRequestKey i t opts)
                                    (fst (performTransformation e svc2 i t opts requestId w))\<rparr>,
                           snd (performTransformation e svc2 i t opts requestId w)))))"
  by (simp add: transformImage_begin_def cacheLookup_def Let_def case_prod_beta split: option.splits)







section \<open>Batch transformation\<close>

lemma batchLoop_results:
  assumes "\<forall>callback. onProgress = Some callback \<longrightarrow>
             (\<forall>j. i \<le> j \<and> j < i + length items \<longrightarrow> callback (j + 1) n = None)"
  shows "fst (batchLoop e onProgress n items i results calls svc w)
           = Inr (results @ map resultOrEmpty (elementOutcomes e items svc w))"
  using assms
proof (induction items arbitrary: i results calls svc w)
  case Nil
  then show ?case by simp
next
  case (Cons item rest)
  obtain outcome svc1 w1 where t:
    "transformImage e svc w (item_data item) (item_type item)
        (case item_options item of None \<Rightarrow> [] | Some options \<Rightarrow> options) = (outcome, svc1, w1)"
    by (cases "transformImage e svc w (item_data item) (item_type item)
        (case item_options item of None \<Rightarrow> [] | Some options \<Rightarrow> options)") auto
  have later: "\<forall>callback. onProgress = Some callback \<longrightarrow>
             (\<forall>j. i + 1 \<le> j \<and> j < (i + 1) + length rest \<longrightarrow> callback (j + 1) n = None)"
    using Cons.prems by auto
  note IH = Cons.IH [OF later]
  show ?case
  proof (cases onProgress)
    case None
    then show ?thesis
      using IH by (cases outcome) (simp_all add: t Let_def)
  next
    case (Some callback)
    then have "callback (i + 1) n = None"
      using Cons.prems by auto
    then show ?thesis
      using IH Some by (cases outcome) (simp_all add: t Let_def)
  qed
qed

lemma length_elementOutcomes: "length (elementOutcomes e items svc w) = length items"
  by (induction items arbitrary: svc w) (auto split: prod.splits)

text \<open>
  C10, as stated, fails when a progress callback is given and throws. The callback is called
  after each element, outside the \<open>try\<close>/\<open>catch\<close> that turns an element's failure into an
  empty string. With a server that answers every request with an image and a callback that
  throws, the first element is transformed, the callback is called with \<open>(1, 2)\<close>, and what
  it throws is raised to the caller: no list is returned and the second element is never
  processed (one network exchange is made in all).
\<close>

theorem batch_callback_counterexample:
  "fst (batchTransformImages (alwaysSucceeds ''result'')
          (Some (throwingProgress (NativeError False ''Error'' ''progress failed'')))
          [\<lparr> item_data = ''a'', item_type = light, item_options = None \<rparr>,
           \<lparr> item_data = ''b'', item_type = heavy, item_options = None \<rparr>]
          (newAPIService mockAPIConfig True True 50) newWorld)
     = Inl (NativeError False ''Error'' ''progress failed'')
   \<and> fst (snd (batchTransformImages (alwaysSucceeds ''result'')
          (Some (throwingProgress (NativeError False ''Error'' ''progress failed'')))
          [\<lparr> item_data = ''a'', item_type = light, item_options = None \<rparr>,
           \<lparr> item_data = ''b'', item_type = heavy, item_options = None \<rparr>]
          (newAPIService mockAPIConfig True True 50) newWorld))
     = [(1, 2)]
   \<and> snd (snd (snd (batchTransformImages (alwaysSucceeds ''result'')
          (Some (throwingProgress (NativeError False ''Error'' ''progress failed'')))
          [\<lparr> item_data = ''a'', item_type = light, item_options = None \<rparr>,
           \<lparr> item_data = ''b'', item_type = heavy, item_options = None \<rparr>]
          (newAPIService mockAPIConfig True True 50) newWorld)))
     = \<lparr> netCalls = 1, sleeps = [], clock = 0, executions = 1 \<rparr>
   \<and> elementOutcomes (alwaysSucceeds ''result'')
          [\<lparr> item_data = ''a'', item_type = light, item_options = None \<rparr>,
           \<lparr> item_data = ''b'', item_type = heavy, item_options = None \<rparr>]
          (newAPIService mockAPIConfig True True 50) newWorld
     = [Inr ''data:image/jpeg;base64,result'', Inr ''data:image/jpeg;base64,result'']"
  by (simp add: batchTransformImages_def throwingProgress_def
      transformImage_def transformImage_begin_alt transformImage_resume_def
      cacheLookup_def getCachedResult_def cacheResult_def Map_get_def Map_delete_def
      performTransformation_def retryLoop.simps attemptOutcome_def
      makeAPIRequest_def response_ok_def addBase64Prefix_def startsWith_def
      alwaysSucceeds_def requestIdOf_def eval_defs)

text \<open>
  C10 (amended). When no progress callback is given, or the callback given returns from each
  of its calls \<open>(i + 1, length)\<close> without throwing, \<open>batchTransformImages\<close> returns, for
  every input list, a list of the same length in input order: position \<open>i\<close> holds the
  transformed image when the transform of element \<open>i\<close> succeeded and the empty string when
  it raised. The batch then runs to the end and returns; no element's failure is raised to
  the caller.
\<close>

theorem batch_results_per_element:
  assumes "progressReturns onProgress (length images)"
  shows "fst (batchTransformImages e onProgress images svc w)
           = Inr (map resultOrEmpty (elementOutcomes e images svc w))
       \<and> length (map resultOrEmpty (elementOutcomes e images svc w)) = length images"
proof -
  have "\<forall>callback. onProgress = Some callback \<longrightarrow>
          (\<forall>j. 0 \<le> j \<and> j < 0 + length images \<longrightarrow> callback (j + 1) (length images) = None)"
    using assms by (auto simp: progressReturns_def list_all_iff)
  then have "fst (batchLoop e onProgress (length images) images 0 [] [] svc w)
           = Inr ([] @ map resultOrEmpty (elementOutcomes e images svc w))"
    by (rule batchLoop_results)
  then show ?thesis
    by (simp add: batchTransformImages_def length_elementOutcomes)
qed

theorem batch_results_per_element_witness:
  "progressReturns (Some quietProgress)
      (length [\<lparr> item_data = ''a'', item_type = light, item_options = None \<rparr>,
               \<lparr> item_data = ''b'', item_type = heavy, item_options = Some [Steps 40] \<rparr>])
   \<and> elementOutcomes (alwaysStatus 401 ''Unauthorized'')
          [\<lparr> item_data = ''a'', item_type = light, item_options = None \<rparr>,
           \<lparr> item_data = ''b'', item_type = heavy, item_options = Some [Steps 40] \<rparr>]
          (newAPIService mockAPIConfig True True 50) newWorld
        = [Inl (PlainError UNKNOWN_ERROR ''Image transformation failed''
                 (Some (PlainError AUTH_ERROR ''HTTP 401: Unauthorized'' None
                          (Some ''transform_1'') 0))
                 (Some ''transform_1'') 0),
           Inl (PlainError UNKNOWN_ERROR ''Image transformation failed''
                 (Some (PlainError AUTH_ERROR ''HTTP 401: Unauthorized'' None
                          (Some ''transform_2'') 0))
                 (Some ''transform_2'') 0)]
   \<and> fst (batchTransformImages (alwaysStatus 401 ''Unauthorized'') (Some quietProgress)
          [\<lparr> item_data = ''a'', item_type = light, item_options = None \<rparr>,
           \<lparr> item_data = ''b'', item_type = heavy, item_options = Some [Steps 40] \<rparr>]
          (newAPIService mockAPIConfig True True 50) newWorld)
     = Inr [[], []]"
proof -
  let ?images = "[\<lparr> item_data = ''a'', item_type = light, item_options = None \<rparr>,
                  \<lparr> item_data = ''b'', item_type = heavy, item_options = Some [Steps 40] \<rparr>]"
  have q: "progressReturns (Some quietProgress) (length ?images)"
    by (simp add: progressReturns_def quietProgress_def)
  have o: "elementOutcomes (alwaysStatus 401 ''Unauthorized'') ?images
          (newAPIService mockAPIConfig True True 50) newWorld
        = [Inl (PlainError UNKNOWN_ERROR ''Image transformation failed''
                 (Some (PlainError AUTH_ERROR ''HTTP 401: Unauthorized'' None
                          (Some ''transform_1'') 0))
                 (Some ''transform_1'') 0),
           Inl (PlainError UNKNOWN_ERROR ''Image transformation failed''
                 (Some (PlainError AUTH_ERROR ''HTTP 401: Unauthorized'' None
                          (Some ''transform_2'') 0))
                 (Some ''transform_2'') 0)]"
    by (simp add: transformImage_def transformImage_begin_alt transformImage_resume_def
        transformImage_catch_def cacheLookup_def getCachedResult_def Map_get_def Map_delete_def
        performTransformation_def retryLoop.simps attemptOutcome_def makeAPIRequest_def
        makeAPIRequest_catch_def response_ok_def createAPIError_def isRetryableError_def
        throwLast_def requestIdOf_def eval_defs)
  have "fst (batchTransformImages (alwaysStatus 401 ''Unauthorized'') (Some quietProgress)
          ?images (newAPIService mockAPIConfig True True 50) newWorld)
     = Inr [[], []]"
    using batch_results_per_element [OF q, where e = "alwaysStatus 401 ''Unauthorized''"
      and svc = "newAPIService mockAPIConfig True True 50" and w = newWorld]
    unfolding o by simp
  then show ?thesis
    using q o by (intro conjI)
qed

section \<open>ImageTransformManager: what the steps leave alone\<close>

lemma sameHist_refl [simp]: "sameHist m m"
  by (simp add: sameHist_def)

lemma sameHist_trans: "sameHist m m1 \<Longrightarrow> sameHist m1 m2 \<Longrightarrow> sameHist m m2"
  by (simp add: sameHist_def)

lemma st_update [simp]:
  "st (m\<lparr>abortController := x1\<rparr>) = st m"
  "st (m\<lparr>awaits := x2\<rparr>) = st m"
  "st (m\<lparr>mgr_world := x3\<rparr>) = st m"
  "st (m\<lparr>apiService := x4\<rparr>) = st m"
  "st (m\<lparr>arrays := x5\<rparr>) = st m"
  "st (m\<lparr>nextAddr := x6\<rparr>) = st m"
  by (simp_all add: st_def)

lemma setState_fields [simp]:
  "stateRef (setState f m) = stateRef m"
  "arrays (setState f m) = arrays m"
  "st (setState f m) = f (st m)"
  "apiService (setState f m) = apiService m"
  "mgr_world (setState f m) = mgr_world m"
  "mgr_options (setState f m) = mgr_options m"
  "abortController (setState f m) = abortController m"
  "awaits (setState f m) = awaits m"
  "nextAddr (setState f m) = nextAddr m"
  by (simp_all add: setState_def st_def)

lemma updateProgress_fields [simp]:
  "stateRef (updateProgress ph p m) = stateRef m"
  "arrays (updateProgress ph p m) = arrays m"
  "st (updateProgress ph p m) = (st m)\<lparr>currentPhase := ph, progress := min 100 (max 0 p)\<rparr>"
  "apiService (updateProgress ph p m) = apiService m"
  "mgr_world (updateProgress ph p m) = mgr_world m"
  "mgr_options (updateProgress ph p m) = mgr_options m"
  "abortController (updateProgress ph p m) = abortController m"
  "awaits (updateProgress ph p m) = awaits m"
  "nextAddr (updateProgress ph p m) = nextAddr m"
  by (simp_all add: updateProgress_def)

lemma cancelTransform_fields [simp]:
  "stateRef (cancelTransform m) = stateRef m"
  "arrays (cancelTransform m) = arrays m"
  "transformHistory (st (cancelTransform m)) = transformHistory (st m)"
  "apiService (cancelTransform m) = apiService m"
  "mgr_world (cancelTransform m) = mgr_world m"
  "mgr_options (cancelTransform m) = mgr_options m"
  "awaits (cancelTransform m) = awaits m"
  "nextAddr (cancelTransform m) = nextAddr m"
  by (simp_all add: cancelTransform_def Let_def)

lemma suspend_fields [simp]:
  "stateRef (suspend oe m) = stateRef m"
  "arrays (suspend oe m) = arrays m"
  "transformHistory (st (suspend oe m)) = transformHistory (st m)"
  "apiService (suspend oe m) = apiService m"
  "mgr_world (suspend oe m) = mgr_world m"
  "mgr_options (suspend oe m) = mgr_options m"
  "awaits (suspend oe m) = awaits m + 1"
  "nextAddr (suspend oe m) = nextAddr m"
  by (simp_all add: suspend_def Let_def)

lemma sleepM_fields [simp]:
  "stateRef (sleepM oe ms m) = stateRef m"
  "arrays (sleepM oe ms m) = arrays m"
  "transformHistory (st (sleepM oe ms m)) = transformHistory (st m)"
  "apiService (sleepM oe ms m) = apiService m"
  "mgr_world (sleepM oe ms m) = sleep ms (mgr_world m)"
  "mgr_options (sleepM oe ms m) = mgr_options m"
  "nextAddr (sleepM oe ms m) = nextAddr m"
  by (simp_all add: sleepM_def)

lemma sameHist_simulateUploadProgress:
  "sameHist m (snd (simulateUploadProgress oe i m))"
proof (induction oe i m rule: simulateUploadProgress.induct)
  case (1 oe i m)
  show ?case
  proof (cases "i \<le> 5")
    case True
    show ?thesis
    proof (cases "checkAborted m")
      case (Inl e)
      with True show ?thesis by (subst simulateUploadProgress.simps) simp
    next
      case (Inr u)
      let ?m1 = "sleepM oe 200 (updateProgress Uploading (20 + (of_nat i / 5) * 20) m)"
      have "sameHist m ?m1" by (simp add: sameHist_def)
      moreover have "sameHist ?m1 (snd (simulateUploadProgress oe (i + 1) ?m1))"
        using 1 [OF True Inr] .
      ultimately have "sameHist m (snd (simulateUploadProgress oe (i + 1) ?m1))"
        by (rule sameHist_trans)
      with True Inr show ?thesis by (subst simulateUploadProgress.simps) simp
    qed
  next
    case False
    then show ?thesis by (subst simulateUploadProgress.simps) simp
  qed
qed

lemma sameHist_performTransformLoop:
  "sameHist m (snd (performTransformLoop oe maxAttempts imageBase64 transformType attempt lastError m))"
proof (induction oe maxAttempts imageBase64 transformType attempt lastError m
    rule: performTransformLoop.induct)
  case (1 oe maxAttempts imageBase64 transformType attempt lastError m)
  show ?case
  proof (cases "attempt \<le> maxAttempts")
    case False
    then show ?thesis by (subst performTransformLoop.simps) simp
  next
    case True
    let ?m1 = "updateProgress Processing (50 + (of_nat attempt - 1) * 10) m"
    obtain outcome svc1 w1 where t:
      "transformImage (api oe) (apiService ?m1) (mgr_world ?m1) imageBase64 transformType
         (transformOptionsFor transformType) = (outcome, svc1, w1)"
      by (metis prod_cases3)
    let ?m2 = "suspend oe (?m1\<lparr>apiService := svc1, mgr_world := w1\<rparr>)"
    have m2: "sameHist m ?m2" by (simp add: sameHist_def)
    show ?thesis
    proof (cases outcome)
      case (Inr result)
      with True t m2 show ?thesis by (subst performTransformLoop.simps) (simp add: Let_def)
    next
      case (Inl error)
      show ?thesis
      proof (cases "attempt < maxAttempts")
        case False
        have "sameHist ?m2 (snd (performTransformLoop oe maxAttempts imageBase64 transformType
                (attempt + 1) (Some error) ?m2))"
          using 1(2) [OF True refl t [symmetric] refl refl Inl False] .
        with m2 have "sameHist m (snd (performTransformLoop oe maxAttempts imageBase64 transformType
                (attempt + 1) (Some error) ?m2))"
          by (rule sameHist_trans)
        with True t Inl False show ?thesis
          by (subst performTransformLoop.simps) (simp add: Let_def)
      next
        case lt: True
        let ?m4 = "sleepM oe (min (1000 * of_nat attempt) 5000)
                     (updateProgress Processing (50 + of_nat attempt * 10) ?m2)"
        have m4: "sameHist m ?m4" by (simp add: sameHist_def)
        show ?thesis
        proof (cases "checkAborted ?m4")
          case (Inl aborted)
          with True t \<open>outcome = Inl error\<close> lt m4 show ?thesis
            by (subst performTransformLoop.simps) (simp add: Let_def)
        next
          case (Inr u)
          have "sameHist ?m4 (snd (performTransformLoop oe maxAttempts imageBase64 transformType
                (attempt + 1) (Some error) ?m4))"
            using 1(1) [OF True refl t [symmetric] refl refl \<open>outcome = Inl error\<close> lt refl refl refl Inr] .
          with m4 have "sameHist m (snd (performTransformLoop oe maxAttempts imageBase64 transformType
                (attempt + 1) (Some error) ?m4))"
            by (rule sameHist_trans)
          with True t \<open>outcome = Inl error\<close> lt Inr show ?thesis
            by (subst performTransformLoop.simps) (simp add: Let_def)
        qed
      qed
    qed
  qed
qed

lemma sameHist_simulateUploadProgress':
  "sameHist m m' \<Longrightarrow> sameHist m (snd (simulateUploadProgress oe i m'))"
  using sameHist_simulateUploadProgress sameHist_trans by blast

lemma sameHist_performTransform':
  "sameHist m m' \<Longrightarrow> sameHist m (snd (performTransform oe imageBase64 transformType m'))"
  unfolding performTransform_def using sameHist_performTransformLoop sameHist_trans by blast

lemma tryPost_sameHist:
  "sameHist m m1 \<Longrightarrow> tryPost m1 sourceImage transformType rm \<Longrightarrow> tryPost m sourceImage transformType rm"
  by (auto simp: tryPost_def sameHist_def split: sum.splits)

lemma tryPost_bindE:
  assumes "sameHist m (snd r)"
    and "\<And>x. fst r = Inr x \<Longrightarrow> tryPost (snd r) sourceImage transformType (f x (snd r))"
  shows "tryPost m sourceImage transformType (bindE r f)"
proof (cases r)
  case (Pair res m1)
  show ?thesis
  proof (cases res)
    case (Inl error)
    with Pair assms(1) show ?thesis by (simp add: bindE_def tryPost_def sameHist_def)
  next
    case (Inr x)
    with Pair assms(2) [of x] have "tryPost m1 sourceImage transformType (f x m1)" by simp
    with assms(1) Pair have "tryPost m sourceImage transformType (f x m1)"
      using tryPost_sameHist by auto
    with Pair Inr show ?thesis by (simp add: bindE_def)
  qed
qed

lemma pushHistory_fields [simp]:
  "stateRef (pushHistory r m) = stateRef m"
  "st (pushHistory r m) = st m"
  "arrays (pushHistory r m)
     = (arrays m)(transformHistory (st m) := arrays m (transformHistory (st m)) @ [r])"
  "apiService (pushHistory r m) = apiService m"
  "mgr_world (pushHistory r m) = mgr_world m"
  "mgr_options (pushHistory r m) = mgr_options m"
  "abortController (pushHistory r m) = abortController m"
  by (simp_all add: pushHistory_def)

lemma tryPost_transformImage_try:
  "tryPost m sourceImage transformType
     (transformImage_try oe sourceImage transformType startTime m)"
  unfolding transformImage_try_def
  apply (rule tryPost_bindE)
   apply (simp add: prepareImageForTransform_def sameHist_def)
  apply (rule tryPost_bindE)
   apply (simp add: check_def)
  apply (rule tryPost_bindE)
   apply (rule sameHist_simulateUploadProgress')
   apply (simp add: check_def sameHist_def)
  apply (rule tryPost_bindE)
   apply (simp add: check_def)
  apply (rule tryPost_bindE)
   apply (rule sameHist_performTransform')
   apply (simp add: check_def sameHist_def)
  apply (rule tryPost_bindE)
   apply (simp add: check_def)
  apply (rule tryPost_bindE)
   apply (simp add: createImageFromBase64_def check_def sameHist_def)
  apply (rule tryPost_bindE)
   apply (simp add: check_def)
  apply (simp add: tryPost_def Let_def check_def)
  done

lemma transformImage_finally_fields [simp]:
  "stateRef (transformImage_finally m) = stateRef m"
  "arrays (transformImage_finally m) = arrays m"
  "st (transformImage_finally m) = (st m)\<lparr>isTransforming := False, currentPhase := Completed\<rparr>"
  "apiService (transformImage_finally m) = apiService m"
  "mgr_world (transformImage_finally m) = mgr_world m"
  "mgr_options (transformImage_finally m) = mgr_options m"
  by (simp_all add: transformImage_finally_def)

lemma manager_transformImage_appends:
  assumes "\<not> isTransforming (st m)"
  shows "\<exists>r. appended m r (snd (manager_transformImage oe sourceImage transformType m))
           \<and> tr_transformType r = transformType \<and> tr_originalImage r = Some sourceImage
           \<and> (case fst (manager_transformImage oe sourceImage transformType m) of
                 Inr result \<Rightarrow> result = r \<and> tr_success r
               | Inl error \<Rightarrow> \<not> tr_success r \<and> tr_error r = Some error)"
proof -
  let ?m0 = "m\<lparr>abortController := Some False\<rparr>"
  let ?body = "transformImage_try oe sourceImage transformType (clock (mgr_world m)) ?m0"
  have post: "tryPost ?m0 sourceImage transformType ?body"
    by (rule tryPost_transformImage_try)
  obtain res m1 where t: "?body = (res, m1)" by (cases ?body) auto
  show ?thesis
  proof (cases res)
    case (Inr result)
    with post t assms show ?thesis
      by (auto simp: manager_transformImage_def tryPost_def appended_def history_def Let_def)
  next
    case (Inl error)
    with post t assms show ?thesis
      by (auto simp: manager_transformImage_def tryPost_def appended_def history_def Let_def
          transformImage_handler_def)
  qed
qed

section \<open>Transform history\<close>

lemma runTransforms_history:
  "\<not> isTransforming (st m) \<Longrightarrow>
     \<exists>rs. history (runTransforms oe reqs m) = history m @ rs
        \<and> map (\<lambda>r. (tr_originalImage r, tr_transformType r)) rs
              = map (\<lambda>q. (Some (fst q), snd q)) reqs
        \<and> \<not> isTransforming (st (runTransforms oe reqs m))"
proof (induction reqs arbitrary: m)
  case Nil
  then show ?case by (simp add: runTransforms.simps)
next
  case (Cons q reqs)
  let ?m1 = "snd (manager_transformImage oe (fst q) (snd q) m)"
  from manager_transformImage_appends [OF Cons.prems, of oe "fst q" "snd q"]
  obtain r where r: "appended m r ?m1" "tr_transformType r = snd q"
      "tr_originalImage r = Some (fst q)"
    by blast
  then have nt: "\<not> isTransforming (st ?m1)" and h: "history ?m1 = history m @ [r]"
    by (simp_all add: appended_def)
  from Cons.IH [OF nt] obtain rs where rs:
    "history (runTransforms oe reqs ?m1) = history ?m1 @ rs"
    "map (\<lambda>r. (tr_originalImage r, tr_transformType r)) rs
       = map (\<lambda>q. (Some (fst q), snd q)) reqs"
    "\<not> isTransforming (st (runTransforms oe reqs ?m1))"
    by blast
  show ?case
    by (rule exI [of _ "r # rs"]) (simp add: rs h r runTransforms.simps)
qed

lemma getTransformHistory_snapshot:
  "arrays (snd (getTransformHistory m)) (fst (getTransformHistory m)) = history m"
  by (simp add: getTransformHistory_def history_def)

lemma newManager_fresh:
  "\<not> isTransforming (st (newManager opts svc w))" "history (newManager opts svc w) = []"
  by (simp_all add: newManager_def st_def history_def)

text \<open>
  C3, as stated, fails: neither the manager nor the service has a history cap. With the
  default options (thresholds 50 and 100, three attempts, a cache of 50 entries), after 101
  completed transforms, more than any configured number, \<open>getTransformHistory\<close> returns
  101 results.
\<close>

theorem history_cap_counterexample:
  "length (arrays
        (snd (getTransformHistory (runTransforms (managerEnv (alwaysSucceeds ''ok''))
           (replicate 101 (''src'', light))
           (newManager defaultManagerOptions (newAPIService mockAPIConfig True True 50) newWorld))))
        (fst (getTransformHistory (runTransforms (managerEnv (alwaysSucceeds ''ok''))
           (replicate 101 (''src'', light))
           (newManager defaultManagerOptions (newAPIService mockAPIConfig True True 50) newWorld)))))
      = 101"
proof -
  let ?m = "newManager defaultManagerOptions (newAPIService mockAPIConfig True True 50) newWorld"
  have "\<not> isTransforming (st ?m)" by (rule newManager_fresh)
  from runTransforms_history [OF this, of "managerEnv (alwaysSucceeds ''ok'')"
      "replicate 101 (''src'', light)"]
  obtain rs where rs:
    "history (runTransforms (managerEnv (alwaysSucceeds ''ok'')) (replicate 101 (''src'', light)) ?m)
       = history ?m @ rs"
    "map (\<lambda>r. (tr_originalImage r, tr_transformType r)) rs
       = map (\<lambda>q. (Some (fst q), snd q)) (replicate 101 (''src'', light))"
    by blast
  from rs(2) have "length (map (\<lambda>r. (tr_originalImage r, tr_transformType r)) rs)
      = length (map (\<lambda>q. (Some (fst q), snd q)) (replicate 101 (''src'', light)))"
    by (rule arg_cong)
  then have len: "length rs = 101" by (simp only: length_map length_replicate)
  have "history ?m = []" by (rule newManager_fresh)
  with rs(1) have "history (runTransforms (managerEnv (alwaysSucceeds ''ok''))
      (replicate 101 (''src'', light)) ?m) = rs"
    by (simp only: append_Nil)
  then show ?thesis
    unfolding getTransformHistory_snapshot using len by (simp only:)
qed


text \<open>
  C3 (amended). The history is not bounded. For every sequence of \<open>N\<close> completed transforms
  (successful or failed), started when no transform is in progress, \<open>getTransformHistory\<close>
  returns the earlier history followed by one result per transform, in the order the
  transforms were made: its length grows by exactly \<open>N\<close> and no entry is dropped.
\<close>

theorem history_grows_without_cap:
  assumes "\<not> isTransforming (st m)"
  shows "let m' = runTransforms oe reqs m;
             snapshot = arrays (snd (getTransformHistory m')) (fst (getTransformHistory m'))
         in length snapshot = length (history m) + length reqs
          \<and> take (length (history m)) snapshot = history m
          \<and> map (\<lambda>r. (tr_originalImage r, tr_transformType r)) (drop (length (history m)) snapshot)
              = map (\<lambda>q. (Some (fst q), snd q)) reqs"
proof -
  from runTransforms_history [OF assms, of oe reqs] obtain rs where rs:
    "history (runTransforms oe reqs m) = history m @ rs"
    "map (\<lambda>r. (tr_originalImage r, tr_transformType r)) rs
       = map (\<lambda>q. (Some (fst q), snd q)) reqs"
    by blast
  from rs(2) have "length rs = length reqs" by (metis length_map)
  with rs show ?thesis by (simp add: Let_def getTransformHistory_snapshot)
qed

theorem history_grows_without_cap_witness:
  "\<not> isTransforming (st (newManager defaultManagerOptions (newAPIService mockAPIConfig True True 50) newWorld))
   \<and> length (arrays
        (snd (getTransformHistory (runTransforms (managerEnv (alwaysSucceeds ''ok''))
           [(''a'', light), (''b'', heavy), (''c'', light)]
           (newManager defaultManagerOptions (newAPIService mockAPIConfig True True 50) newWorld))))
        (fst (getTransformHistory (runTransforms (managerEnv (alwaysSucceeds ''ok''))
           [(''a'', light), (''b'', heavy), (''c'', light)]
           (newManager defaultManagerOptions (newAPIService mockAPIConfig True True 50) newWorld)))))
      = 3"
  using history_grows_without_cap
      [where m = "newManager defaultManagerOptions (newAPIService mockAPIConfig True True 50) newWorld"
         and oe = "managerEnv (alwaysSucceeds ''ok'')"
         and reqs = "[(''a'', light), (''b'', heavy), (''c'', light)]"]
  by (simp add: newManager_fresh Let_def)


section \<open>Snapshots\<close>

lemma getState_history_shared:
  "history (mutateArray (transformHistory (states (snd (getState m)) (fst (getState m)))) f
              (snd (getState m)))
     = f (history m)"
  by (simp add: getState_def mutateArray_def history_def st_def)

lemma getTransformHistory_isolated:
  assumes "heapOk m"
  shows "history (mutateArray (fst (getTransformHistory m)) f (snd (getTransformHistory m)))
           = history m
       \<and> st (mutateArray (fst (getTransformHistory m)) f (snd (getTransformHistory m))) = st m"
  using assms by (simp add: getTransformHistory_def mutateArray_def history_def st_def heapOk_def)

lemma getState_object_isolated:
  assumes "heapOk m"
  shows "st (mutateObject (fst (getState m)) g (snd (getState m))) = st m
       \<and> history (mutateObject (fst (getState m)) g (snd (getState m))) = history m"
  using assms by (simp add: getState_def mutateObject_def history_def st_def heapOk_def)

text \<open>
  C9 at a failing input. On a freshly constructed manager, a consumer that pushes a result
  onto the \<open>transformHistory\<close> array of the object returned by \<open>getState\<close> changes the
  manager's own history: the spread copies the reference to the array, not the array. (The
  array returned by \<open>getTransformHistory\<close> and the fields of the object returned by
  \<open>getState\<close> are isolated, by the two lemmas above.)
\<close>

theorem getState_leaks_history:
  "history (newManager defaultManagerOptions (newAPIService mockAPIConfig True True 50) newWorld) = []
   \<and> history
       (mutateArray
          (transformHistory
             (states (snd (getState (newManager defaultManagerOptions
                        (newAPIService mockAPIConfig True True 50) newWorld)))
                (fst (getState (newManager defaultManagerOptions
                        (newAPIService mockAPIConfig True True 50) newWorld)))))
          (\<lambda>xs. xs @ [\<lparr> tr_success = True, tr_transformedImage = Some ''forged'',
                         tr_originalImage = None, tr_transformType = heavy,
                         tr_processingTime = 0, tr_error = None \<rparr>])
          (snd (getState (newManager defaultManagerOptions
                  (newAPIService mockAPIConfig True True 50) newWorld))))
     = [\<lparr> tr_success = True, tr_transformedImage = Some ''forged'',
          tr_originalImage = None, tr_transformType = heavy,
          tr_processingTime = 0, tr_error = None \<rparr>]"
  by (simp add: getState_def mutateArray_def history_def st_def newManager_def)

section \<open>Retry bound\<close>

lemma retryLoop_all_fail:
  "allServerError e \<Longrightarrow> attempt \<le> Suc maxRetries \<Longrightarrow>
     (\<exists>err. fst (retryLoop e request requestId maxRetries attempt lastError w) = Inl err
        \<and> (attempt \<le> maxRetries \<longrightarrow> typeOf err = Some SERVER_ERROR))
     \<and> netCalls (snd (retryLoop e request requestId maxRetries attempt lastError w))
          = netCalls w + (Suc maxRetries - attempt)
     \<and> length (sleeps (snd (retryLoop e request requestId maxRetries attempt lastError w)))
          = length (sleeps w) + (maxRetries - attempt)"
proof (induction e request requestId maxRetries attempt lastError w rule: retryLoop.induct)
  case (1 e request requestId maxRetries attempt lastError w)
  from "1.prems" have all: "allServerError e" by simp
  show ?case
  proof (cases "attempt \<le> maxRetries")
    case False
    with "1.prems" show ?thesis
      by (subst (1 2 3) retryLoop.simps) simp
  next
    case True
    let ?w1 = "w\<lparr>netCalls := netCalls w + 1, clock := clock w + int (latency e (netCalls w))\<rparr>"
    from all obtain err where out:
      "attemptOutcome requestId (clock ?w1) (net e (netCalls w) request) = Inl err"
      and ty: "typeOf err = Some SERVER_ERROR"
      unfolding allServerError_def by blast
    have retry: "isRetryableError err"
      using ty by (simp add: isRetryableError_def)
    show ?thesis
    proof (cases "attempt = maxRetries")
      case True
      with out ty show ?thesis
        by (subst (1 2 3) retryLoop.simps) (simp add: throwLast_def Let_def)
    next
      case False
      let ?w2 = "sleep (calculateRetryDelay (int attempt)) ?w1"
      have step: "retryLoop e request requestId maxRetries attempt lastError w
          = retryLoop e request requestId maxRetries (attempt + 1) (Some err) ?w2"
        using True False out retry by (subst retryLoop.simps) (simp add: Let_def)
      have le: "attempt + 1 \<le> Suc maxRetries" using True by simp
      from "1.IH" [OF True refl out _ all le] False retry
      have ih: "(\<exists>err'. fst (retryLoop e request requestId maxRetries (attempt + 1)
                    (Some err) ?w2) = Inl err'
            \<and> (attempt + 1 \<le> maxRetries \<longrightarrow> typeOf err' = Some SERVER_ERROR))
         \<and> netCalls (snd (retryLoop e request requestId maxRetries (attempt + 1)
                    (Some err) ?w2))
              = netCalls ?w2 + (Suc maxRetries - (attempt + 1))
         \<and> length (sleeps (snd (retryLoop e request requestId maxRetries (attempt + 1)
                    (Some err) ?w2)))
              = length (sleeps ?w2) + (maxRetries - (attempt + 1))"
        by simp
      from True False have lt: "attempt + 1 \<le> maxRetries" by simp
      show ?thesis
        unfolding step using ih lt True by (auto simp: sleep_def)
    qed
  qed
qed

lemma performTransformation_all_fail:
  assumes "allServerError e"
  shows "(\<exists>err. fst (performTransformation e svc i t opts requestId w) = Inl err
            \<and> (1 \<le> maxRetriesOf svc \<longrightarrow> typeOf err = Some SERVER_ERROR))
       \<and> netCalls (snd (performTransformation e svc i t opts requestId w)) = netCalls w + maxRetriesOf svc
       \<and> executions (snd (performTransformation e svc i t opts requestId w)) = executions w + 1"
proof -
  let ?w = "w\<lparr>executions := executions w + 1\<rparr>"
  have le: "1 \<le> Suc (maxRetriesOf svc)" by simp
  from retryLoop_all_fail [OF assms le, where request = "buildRequest (svc_config svc) i t opts"
      and requestId = requestId and lastError = None and w = ?w]
  show ?thesis
    by (simp add: performTransformation_def maxRetriesOf_def Let_def retryLoop_executions)
qed

lemma transformImage_all_fail:
  assumes "allServerError e" and "serviceReady svc (generateRequestKey i t opts)"
  shows "(\<exists>err. fst (transformImage e svc w i t opts) = Inl err)
       \<and> serviceReady (fst (snd (transformImage e svc w i t opts))) (generateRequestKey i t opts)
       \<and> svc_config (fst (snd (transformImage e svc w i t opts))) = svc_config svc
       \<and> svc_options (fst (snd (transformImage e svc w i t opts))) = svc_options svc
       \<and> netCalls (snd (snd (transformImage e svc w i t opts))) = netCalls w + maxRetriesOf svc
       \<and> executions (snd (snd (transformImage e svc w i t opts))) = executions w + 1"
proof -
  let ?k = "generateRequestKey i t opts"
  let ?s1 = "svc\<lparr>requestIdCounter := requestIdCounter svc + 1\<rparr>"
  have look: "cacheLookup ?s1 (clock w) i t opts = (None, ?s1)"
    using assms(2) by (simp add: cacheLookup_def getCachedResult_def serviceReady_def Let_def)
  have mr: "maxRetriesOf ?s1 = maxRetriesOf svc" by (simp add: maxRetriesOf_def)
  let ?rid = "requestIdOf (requestIdCounter svc + 1)"
  from performTransformation_all_fail [OF assms(1), of ?s1 i t opts ?rid w] mr
  obtain err where p: "fst (performTransformation e ?s1 i t opts ?rid w) = Inl err"
    and n: "netCalls (snd (performTransformation e ?s1 i t opts ?rid w))
              = netCalls w + maxRetriesOf svc"
    and x: "executions (snd (performTransformation e ?s1 i t opts ?rid w)) = executions w + 1"
    by auto
  have b: "transformImage_begin e svc w i t opts
      = (Inr (Owner ?rid ?k (Inl err)),
         ?s1\<lparr>activeRequests := Map_set (activeRequests ?s1) ?k (Inl err)\<rparr>,
         snd (performTransformation e ?s1 i t opts ?rid w))"
    using assms(2) look p by (simp add: transformImage_begin_alt serviceReady_def Let_def)
  show ?thesis
    using assms(2) n x
    by (simp add: transformImage_def b transformImage_resume_def serviceReady_def
        Map_get_Map_delete)
qed

lemma suspend_noCancel: "noCancel oe \<Longrightarrow> suspend oe m = m\<lparr>awaits := awaits m + 1\<rparr>"
  by (simp add: suspend_def noCancel_def)

lemma sameCore_refl [simp]: "sameCore m m"
  by (simp add: sameCore_def)

lemma sameCore_trans: "sameCore m m1 \<Longrightarrow> sameCore m1 m2 \<Longrightarrow> sameCore m m2"
  by (simp add: sameCore_def)

lemma sameCore_suspend: "noCancel oe \<Longrightarrow> sameCore m (suspend oe m)"
  by (simp add: suspend_noCancel sameCore_def)

lemma sameCore_sleepM: "noCancel oe \<Longrightarrow> sameCore m (sleepM oe ms m)"
  by (simp add: sleepM_def suspend_noCancel sameCore_def)

lemma sameCore_updateProgress [simp]: "sameCore m (updateProgress ph p m)"
  by (simp add: sameCore_def)

lemma sameCore_setState [simp]: "sameCore m (setState f m)"
  by (simp add: sameCore_def)

lemma checkAborted_ok: "abortController m \<noteq> Some True \<Longrightarrow> checkAborted m = Inr ()"
  by (simp add: checkAborted_def)

lemma simulateUploadProgress_ok:
  "noCancel oe \<Longrightarrow> abortController m \<noteq> Some True \<Longrightarrow>
     fst (simulateUploadProgress oe i m) = Inr ()
     \<and> sameCore m (snd (simulateUploadProgress oe i m))"
proof (induction oe i m rule: simulateUploadProgress.induct)
  case (1 oe i m)
  show ?case
  proof (cases "i \<le> 5")
    case False
    then show ?thesis by (subst (1 2) simulateUploadProgress.simps) simp
  next
    case True
    let ?m1 = "sleepM oe 200 (updateProgress Uploading (20 + (of_nat i / 5) * 20) m)"
    have ok: "checkAborted m = Inr ()" using "1.prems" by (simp add: checkAborted_ok)
    have c1: "sameCore m ?m1"
      using sameCore_sleepM [OF "1.prems"(1)] sameCore_updateProgress sameCore_trans by blast
    then have ab: "abortController ?m1 \<noteq> Some True"
      using "1.prems"(2) by (simp add: sameCore_def)
    from "1.IH" [OF True ok "1.prems"(1) ab]
    have ih: "fst (simulateUploadProgress oe (i + 1) ?m1) = Inr ()"
      "sameCore ?m1 (snd (simulateUploadProgress oe (i + 1) ?m1))"
      by simp_all
    have step: "simulateUploadProgress oe i m = simulateUploadProgress oe (i + 1) ?m1"
      using True ok by (subst simulateUploadProgress.simps) simp
    show ?thesis
      unfolding step using ih c1 sameCore_trans by blast
  qed
qed

lemma performTransformLoop_all_fail:
  "noCancel oe \<Longrightarrow> allServerError (api oe) \<Longrightarrow> abortController m \<noteq> Some True \<Longrightarrow>
   serviceReady (apiService m) (generateRequestKey imageBase64 transformType
      (transformOptionsFor transformType)) \<Longrightarrow>
   maxRetriesOf (apiService m) = R \<Longrightarrow> attempt \<le> Suc maxAttempts \<Longrightarrow>
     (\<exists>err. fst (performTransformLoop oe maxAttempts imageBase64 transformType attempt
                  lastError m) = Inl err)
     \<and> netCalls (mgr_world (snd (performTransformLoop oe maxAttempts imageBase64 transformType
           attempt lastError m)))
          = netCalls (mgr_world m) + (Suc maxAttempts - attempt) * R
     \<and> executions (mgr_world (snd (performTransformLoop oe maxAttempts imageBase64 transformType
           attempt lastError m)))
          = executions (mgr_world m) + (Suc maxAttempts - attempt)"
proof (induction oe maxAttempts imageBase64 transformType attempt lastError m
    rule: performTransformLoop.induct)
  case (1 oe maxAttempts imageBase64 transformType attempt lastError m)
  let ?key = "generateRequestKey imageBase64 transformType (transformOptionsFor transformType)"
  from "1.prems" have nc: "noCancel oe" and all: "allServerError (api oe)"
    and ab: "abortController m \<noteq> Some True"
    and ready: "serviceReady (apiService m) ?key"
    and R: "maxRetriesOf (apiService m) = R" and le: "attempt \<le> Suc maxAttempts"
    by simp_all
  show ?case
  proof (cases "attempt \<le> maxAttempts")
    case False
    with le show ?thesis by (subst (1 2 3) performTransformLoop.simps) simp
  next
    case True
    let ?m1 = "updateProgress Processing (50 + (of_nat attempt - 1) * 10) m"
    obtain outcome svc1 w1 where t:
      "transformImage (api oe) (apiService ?m1) (mgr_world ?m1) imageBase64 transformType
         (transformOptionsFor transformType) = (outcome, svc1, w1)"
      by (metis prod_cases3)
    from transformImage_all_fail [OF all, of "apiService m" imageBase64 transformType
        "transformOptionsFor transformType" "mgr_world m"] ready t
    obtain error where out: "outcome = Inl error"
      and ready1: "serviceReady svc1 ?key"
      and cfg: "svc_config svc1 = svc_config (apiService m)"
        "svc_options svc1 = svc_options (apiService m)"
      and n1: "netCalls w1 = netCalls (mgr_world m) + R"
      and x1: "executions w1 = executions (mgr_world m) + 1"
      using R by auto
    have R1: "maxRetriesOf svc1 = R" using cfg R by (auto simp: maxRetriesOf_def split: if_splits)
    let ?m2 = "suspend oe (?m1\<lparr>apiService := svc1, mgr_world := w1\<rparr>)"
    have m2: "apiService ?m2 = svc1" "mgr_world ?m2 = w1" "abortController ?m2 = abortController m"
      by (simp_all add: suspend_noCancel [OF nc])
    show ?thesis
    proof (cases "attempt < maxAttempts")
      case False
      with True have eq: "attempt = maxAttempts" by simp
      have step: "performTransformLoop oe maxAttempts imageBase64 transformType attempt lastError m
          = performTransformLoop oe maxAttempts imageBase64 transformType (attempt + 1)
              (Some error) ?m2"
        using True t out False by (subst performTransformLoop.simps) (simp add: Let_def)
      have fin: "performTransformLoop oe maxAttempts imageBase64 transformType (attempt + 1)
              (Some error) ?m2 = (Inl error, ?m2)"
        using eq by (subst performTransformLoop.simps) simp
      show ?thesis
        unfolding step fin using m2 n1 x1 eq by simp
    next
      case lt: True
      let ?m4 = "sleepM oe (min (1000 * of_nat attempt) 5000)
                   (updateProgress Processing (50 + of_nat attempt * 10) ?m2)"
      have m4: "apiService ?m4 = svc1" "netCalls (mgr_world ?m4) = netCalls w1"
          "executions (mgr_world ?m4) = executions w1"
          "abortController ?m4 = abortController m"
        by (simp_all add: sleepM_def suspend_noCancel [OF nc])
      have ok: "checkAborted ?m4 = Inr ()"
        using ab m4(4) by (simp add: checkAborted_ok)
      have step: "performTransformLoop oe maxAttempts imageBase64 transformType attempt lastError m
          = performTransformLoop oe maxAttempts imageBase64 transformType (attempt + 1)
              (Some error) ?m4"
        using True t out lt ok by (subst performTransformLoop.simps) (simp add: Let_def)
      have ab4: "abortController ?m4 \<noteq> Some True" using ab m4(4) by simp
      have ready4: "serviceReady (apiService ?m4) ?key" using ready1 m4(1) by simp
      have R4: "maxRetriesOf (apiService ?m4) = R" using R1 m4(1) by simp
      have le4: "attempt + 1 \<le> Suc maxAttempts" using True by simp
      from "1.IH"(1) [OF True refl t [symmetric] refl refl out lt refl refl refl ok
          nc all ab4 ready4 R4 le4]
      have ih: "(\<exists>err. fst (performTransformLoop oe maxAttempts imageBase64 transformType
                  (attempt + 1) (Some error) ?m4) = Inl err)
         \<and> netCalls (mgr_world (snd (performTransformLoop oe maxAttempts imageBase64
               transformType (attempt + 1) (Some error) ?m4)))
              = netCalls (mgr_world ?m4) + (Suc maxAttempts - (attempt + 1)) * R
         \<and> executions (mgr_world (snd (performTransformLoop oe maxAttempts imageBase64
               transformType (attempt + 1) (Some error) ?m4)))
              = executions (mgr_world ?m4) + (Suc maxAttempts - (attempt + 1))" .
      have arith: "R + (Suc maxAttempts - (attempt + 1)) * R = (Suc maxAttempts - attempt) * R"
        using True by (simp add: Suc_diff_le)
      have arith2: "1 + (Suc maxAttempts - (attempt + 1)) = Suc maxAttempts - attempt"
        using True by simp
      show ?thesis
        unfolding step using ih m4 n1 x1 arith arith2 by (simp add: add.assoc)
    qed
  qed
qed

lemma bindE_Inr: "fst r = Inr x \<Longrightarrow> bindE r f = f x (snd r)"
  by (cases r) (simp add: bindE_def)

lemma bindE_Inl: "fst r = Inl error \<Longrightarrow> bindE r f = (Inl error, snd r)"
  by (cases r) (simp add: bindE_def)

lemma transformImage_try_all_fail:
  assumes nc: "noCancel oe" and all: "allServerError (api oe)"
    and prep: "prepareImage oe sourceImage = Inr imageBase64"
    and ab: "abortController m \<noteq> Some True"
    and ready: "serviceReady (apiService m) (generateRequestKey imageBase64 transformType
                  (transformOptionsFor transformType))"
  shows "(\<exists>err. fst (transformImage_try oe sourceImage transformType startTime m) = Inl err)
       \<and> netCalls (mgr_world (snd (transformImage_try oe sourceImage transformType startTime m)))
           = netCalls (mgr_world m)
               + maxTransformAttempts (mgr_options m) * maxRetriesOf (apiService m)
       \<and> executions (mgr_world (snd (transformImage_try oe sourceImage transformType startTime m)))
           = executions (mgr_world m) + maxTransformAttempts (mgr_options m)"
proof -
  let ?a = "updateProgress Preparing 10
              (setState (\<lambda>t. t\<lparr>isTransforming := True, currentPhase := Preparing,
                                  progress := 0, failedAttempts := 0\<rparr>) m)"
  let ?m1 = "suspend oe ?a"
  have c1: "sameCore m ?m1"
    by (simp add: suspend_noCancel [OF nc] sameCore_def)
  have r1: "fst (prepareImageForTransform oe sourceImage ?a) = Inr imageBase64"
    "snd (prepareImageForTransform oe sourceImage ?a) = ?m1"
    using prep by (simp_all add: prepareImageForTransform_def)
  have k1: "fst (check ?m1) = Inr ()" "snd (check ?m1) = ?m1"
    using c1 ab by (simp_all add: check_def checkAborted_ok sameCore_def)
  let ?u = "updateProgress Uploading 20 ?m1"
  have cu: "sameCore m ?u" using c1 by (simp add: sameCore_def)
  let ?r3 = "simulateUploadProgress oe 1 ?u"
  let ?m3 = "snd ?r3"
  have abu: "abortController ?u \<noteq> Some True" using cu ab by (simp add: sameCore_def)
  from simulateUploadProgress_ok [OF nc abu, of 1]
  have r3: "fst ?r3 = Inr ()" and c3': "sameCore ?u ?m3" by simp_all
  from cu c3' have c3: "sameCore m ?m3" by (rule sameCore_trans)
  have k3: "fst (check ?m3) = Inr ()" "snd (check ?m3) = ?m3"
    using c3 ab by (simp_all add: check_def checkAborted_ok sameCore_def)
  let ?p = "updateProgress Processing 50 ?m3"
  have cp: "sameCore m ?p" using c3 by (simp add: sameCore_def)
  let ?r5 = "performTransform oe imageBase64 transformType ?p"
  have abp: "abortController ?p \<noteq> Some True" using cp ab by (simp add: sameCore_def)
  have readyp: "serviceReady (apiService ?p) (generateRequestKey imageBase64 transformType
                  (transformOptionsFor transformType))"
    using cp ready by (simp add: sameCore_def)
  have Rp: "maxRetriesOf (apiService ?p) = maxRetriesOf (apiService m)"
    using cp by (simp add: sameCore_def)
  have le: "1 \<le> Suc (maxTransformAttempts (mgr_options ?p))" by simp
  from performTransformLoop_all_fail [OF nc all abp readyp Rp le, of None]
  obtain err where r5: "fst ?r5 = Inl err"
    and n5: "netCalls (mgr_world (snd ?r5))
               = netCalls (mgr_world ?p)
                   + maxTransformAttempts (mgr_options ?p) * maxRetriesOf (apiService m)"
    and x5: "executions (mgr_world (snd ?r5))
               = executions (mgr_world ?p) + maxTransformAttempts (mgr_options ?p)"
    unfolding performTransform_def by auto
  have whole: "transformImage_try oe sourceImage transformType startTime m = (Inl err, snd ?r5)"
    unfolding transformImage_try_def
    apply (subst bindE_Inr [OF r1(1)])
    apply (subst r1(2))
    apply (subst bindE_Inr [OF k1(1)])
    apply (subst k1(2))
    apply (subst bindE_Inr [OF r3])
    apply (subst bindE_Inr [OF k3(1)])
    apply (subst k3(2))
    apply (subst bindE_Inl [OF r5])
    apply (rule refl)
    done
  show ?thesis
    unfolding whole using n5 x5 cp by (simp add: sameCore_def)
qed

lemma handler_type:
  "typeOf (fst (transformImage_handler sourceImage transformType startTime error m)) = Some API_ERROR"
  by (cases error) (simp_all add: transformImage_handler_def Let_def createError_def)

lemma handler_world:
  "mgr_world (snd (transformImage_handler sourceImage transformType startTime error m)) = mgr_world m"
  by (simp add: transformImage_handler_def Let_def)

lemma manager_all_fail:
  assumes nc: "noCancel oe" and all: "allServerError (api oe)"
    and prep: "prepareImage oe sourceImage = Inr imageBase64"
    and idle: "\<not> isTransforming (st m)"
    and ready: "serviceReady (apiService m) (generateRequestKey imageBase64 transformType
                  (transformOptionsFor transformType))"
  shows "outcomeType (fst (manager_transformImage oe sourceImage transformType m)) = Some API_ERROR
       \<and> netCalls (mgr_world (snd (manager_transformImage oe sourceImage transformType m)))
           = netCalls (mgr_world m)
               + maxTransformAttempts (mgr_options m) * maxRetriesOf (apiService m)
       \<and> executions (mgr_world (snd (manager_transformImage oe sourceImage transformType m)))
           = executions (mgr_world m) + maxTransformAttempts (mgr_options m)"
proof -
  let ?m0 = "m\<lparr>abortController := Some False\<rparr>"
  let ?body = "transformImage_try oe sourceImage transformType (clock (mgr_world m)) ?m0"
  have ab: "abortController ?m0 \<noteq> Some True" by simp
  have ready0: "serviceReady (apiService ?m0) (generateRequestKey imageBase64 transformType
                  (transformOptionsFor transformType))"
    using ready by simp
  from transformImage_try_all_fail [OF nc all prep ab ready0, of "clock (mgr_world m)"]
  obtain err where f: "fst ?body = Inl err"
    and n: "netCalls (mgr_world (snd ?body))
              = netCalls (mgr_world m)
                  + maxTransformAttempts (mgr_options m) * maxRetriesOf (apiService m)"
    and x: "executions (mgr_world (snd ?body))
              = executions (mgr_world m) + maxTransformAttempts (mgr_options m)"
    by auto
  have t: "?body = (Inl err, snd ?body)" using f by (metis prod.collapse)
  obtain te m2 where h: "transformImage_handler sourceImage transformType (clock (mgr_world m))
        err (snd ?body) = (te, m2)"
    by (cases "transformImage_handler sourceImage transformType (clock (mgr_world m)) err (snd ?body)")
  have te: "typeOf te = Some API_ERROR"
    using handler_type [of sourceImage transformType "clock (mgr_world m)" err "snd ?body"] h
    by simp
  have w2: "mgr_world m2 = mgr_world (snd ?body)"
    using handler_world [of sourceImage transformType "clock (mgr_world m)" err "snd ?body"] h
    by simp
  have res: "manager_transformImage oe sourceImage transformType m
      = (Inl te, transformImage_finally m2)"
    using idle by (simp add: manager_transformImage_def Let_def, subst t, simp add: h)
  show ?thesis
    unfolding res using te w2 n x by simp
qed

lemma allServerError_alwaysStatus_500: "allServerError (alwaysStatus 500 statusText)"
  unfolding allServerError_def
  by (simp add: alwaysStatus_def attemptOutcome_def makeAPIRequest_def makeAPIRequest_catch_def
      response_ok_def createAPIError_def)

lemma noCancel_managerEnv: "noCancel (managerEnv e)"
  by (simp add: noCancel_def managerEnv_def)

lemma serviceReady_new: "apiKey cfg \<noteq> [] \<Longrightarrow> serviceReady (newAPIService cfg retry cache cap) key"
  by (simp add: serviceReady_def newAPIService_def Map_get_def)

lemma newManager_parts [simp]:
  "apiService (newManager opts svc w) = svc"
  "mgr_world (newManager opts svc w) = w"
  "mgr_options (newManager opts svc w) = opts"
  by (simp_all add: newManager_def)

text \<open>
  C1, as stated, fails: with the default three attempts of the manager and a service
  configured for three attempts, a server that always answers 500 is contacted nine times by
  one call of the manager's \<open>transformImage\<close>, and the error the call rejects with has
  type \<open>API_ERROR\<close>.
\<close>

theorem retry_bound_counterexample:
  "maxTransformAttempts (mgr_options (newManager defaultManagerOptions
       (newAPIService mockAPIConfig True True 50) newWorld)) = 3
   \<and> retryCount (svc_config (newAPIService mockAPIConfig True True 50)) = 3
   \<and> netCalls (mgr_world (snd (manager_transformImage
         (managerEnv (alwaysStatus 500 ''Internal Server Error'')) ''src'' light
         (newManager defaultManagerOptions (newAPIService mockAPIConfig True True 50) newWorld))))
       = 9
   \<and> outcomeType (fst (manager_transformImage
         (managerEnv (alwaysStatus 500 ''Internal Server Error'')) ''src'' light
         (newManager defaultManagerOptions (newAPIService mockAPIConfig True True 50) newWorld)))
       = Some API_ERROR"
proof -
  let ?oe = "managerEnv (alwaysStatus 500 ''Internal Server Error'')"
  let ?m = "newManager defaultManagerOptions (newAPIService mockAPIConfig True True 50) newWorld"
  have a: "allServerError (api ?oe)"
    by (simp add: managerEnv_def allServerError_alwaysStatus_500)
  have b: "noCancel ?oe" by (rule noCancel_managerEnv)
  have c: "prepareImage ?oe ''src'' = Inr ''data:image/jpeg;base64,src''"
    by (simp add: managerEnv_def)
  have d: "\<not> isTransforming (st ?m)" by (rule newManager_fresh)
  have e: "serviceReady (apiService ?m)
             (generateRequestKey ''data:image/jpeg;base64,src'' light (transformOptionsFor light))"
    by (simp add: serviceReady_new mockAPIConfig_def)
  have R: "maxRetriesOf (newAPIService mockAPIConfig True True 50) = 3"
    by (simp add: maxRetriesOf_def newAPIService_def mockAPIConfig_def)
  show ?thesis
    using manager_all_fail [OF b a c d e] R
    by (simp add: newWorld_def defaultManagerOptions_def newAPIService_def mockAPIConfig_def)
qed


text \<open>
  C1 (amended). If every network exchange fails with a classified \<open>SERVER_ERROR\<close>,
  the image preparation succeeds, the client does not cancel, no transform is in progress,
  and the service has an API key and neither a cached result nor a pending request for the
  request: one call of the manager's \<open>transformImage\<close> calls the service
  \<open>maxTransformAttempts\<close> times and \<open>maxTransformAttempts * maxRetries\<close> network
  attempts are made in all, where \<open>maxRetries\<close> is the service's \<open>retryCount\<close>, or 1
  when retry is disabled; the call then terminates with a failure, and exactly one failed
  result carrying the error is appended to the history. Every attempt chain of the service
  fails after exactly \<open>maxRetries\<close> network attempts, and when \<open>maxRetries\<close> is at least 1
  the error it fails with has type \<open>SERVER_ERROR\<close>.
\<close>

theorem nested_retry_attempts:
  assumes "allServerError (api oe)" and "noCancel oe"
    and "prepareImage oe sourceImage = Inr imageBase64"
    and "\<not> isTransforming (st m)"
    and "serviceReady (apiService m)
           (generateRequestKey imageBase64 transformType (transformOptionsFor transformType))"
  shows "netCalls (mgr_world (snd (manager_transformImage oe sourceImage transformType m)))
           = netCalls (mgr_world m)
               + maxTransformAttempts (mgr_options m) * maxRetriesOf (apiService m)
       \<and> executions (mgr_world (snd (manager_transformImage oe sourceImage transformType m)))
           = executions (mgr_world m) + maxTransformAttempts (mgr_options m)
       \<and> (\<exists>error r. fst (manager_transformImage oe sourceImage transformType m) = Inl error
              \<and> history (snd (manager_transformImage oe sourceImage transformType m))
                   = history m @ [r]
              \<and> \<not> tr_success r \<and> tr_error r = Some error)
       \<and> (\<exists>err. fst (performTransformation (api oe) svc i t opts requestId w) = Inl err
              \<and> (1 \<le> maxRetriesOf svc \<longrightarrow> typeOf err = Some SERVER_ERROR))
       \<and> netCalls (snd (performTransformation (api oe) svc i t opts requestId w))
           = netCalls w + maxRetriesOf svc"
proof -
  let ?r = "manager_transformImage oe sourceImage transformType m"
  from manager_all_fail [OF assms(2) assms(1) assms(3) assms(4) assms(5)]
  have ty: "outcomeType (fst ?r) = Some API_ERROR"
    and n: "netCalls (mgr_world (snd ?r))
              = netCalls (mgr_world m)
                  + maxTransformAttempts (mgr_options m) * maxRetriesOf (apiService m)"
    and x: "executions (mgr_world (snd ?r))
              = executions (mgr_world m) + maxTransformAttempts (mgr_options m)"
    by simp_all
  from ty obtain error where e: "fst ?r = Inl error"
    by (cases "fst ?r") simp_all
  from manager_transformImage_appends [OF assms(4), of oe sourceImage transformType] e
  obtain r where r: "history (snd ?r) = history m @ [r]" "\<not> tr_success r"
      "tr_error r = Some error"
    by (auto simp: appended_def)
  from performTransformation_all_fail [OF assms(1), of svc i t opts requestId w]
  have p: "(\<exists>err. fst (performTransformation (api oe) svc i t opts requestId w) = Inl err
              \<and> (1 \<le> maxRetriesOf svc \<longrightarrow> typeOf err = Some SERVER_ERROR))"
    "netCalls (snd (performTransformation (api oe) svc i t opts requestId w)) = netCalls w + maxRetriesOf svc"
    by simp_all
  show ?thesis using n x e r p by blast
qed

theorem nested_retry_attempts_witness:
  "allServerError (api (managerEnv (alwaysStatus 500 ''Internal Server Error'')))
   \<and> noCancel (managerEnv (alwaysStatus 500 ''Internal Server Error''))
   \<and> prepareImage (managerEnv (alwaysStatus 500 ''Internal Server Error'')) ''src''
       = Inr ''data:image/jpeg;base64,src''
   \<and> \<not> isTransforming (st (newManager (defaultManagerOptions\<lparr>maxTransformAttempts := 2\<rparr>)
           (newAPIService mockAPIConfig True True 50) newWorld))
   \<and> netCalls (mgr_world (snd (manager_transformImage
         (managerEnv (alwaysStatus 500 ''Internal Server Error'')) ''src'' light
         (newManager (defaultManagerOptions\<lparr>maxTransformAttempts := 2\<rparr>)
            (newAPIService mockAPIConfig True True 50) newWorld))))
       = 6
   \<and> executions (mgr_world (snd (manager_transformImage
         (managerEnv (alwaysStatus 500 ''Internal Server Error'')) ''src'' light
         (newManager (defaultManagerOptions\<lparr>maxTransformAttempts := 2\<rparr>)
            (newAPIService mockAPIConfig True True 50) newWorld))))
       = 2"
proof -
  let ?oe = "managerEnv (alwaysStatus 500 ''Internal Server Error'')"
  let ?m = "newManager (defaultManagerOptions\<lparr>maxTransformAttempts := 2\<rparr>)
              (newAPIService mockAPIConfig True True 50) newWorld"
  have a: "allServerError (api ?oe)"
    by (simp add: managerEnv_def allServerError_alwaysStatus_500)
  have b: "noCancel ?oe" by (rule noCancel_managerEnv)
  have c: "prepareImage ?oe ''src'' = Inr ''data:image/jpeg;base64,src''"
    by (simp add: managerEnv_def)
  have d: "\<not> isTransforming (st ?m)" by (rule newManager_fresh)
  have e: "serviceReady (apiService ?m)
             (generateRequestKey ''data:image/jpeg;base64,src'' light (transformOptionsFor light))"
    by (simp add: serviceReady_new mockAPIConfig_def)
  have R: "maxRetriesOf (newAPIService mockAPIConfig True True 50) = 3"
    by (simp add: maxRetriesOf_def newAPIService_def mockAPIConfig_def)
  show ?thesis
    using a b c d nested_retry_attempts [OF a b c d e] R
    by (simp add: newWorld_def defaultManagerOptions_def)
qed

end
